theory Spec2Isabelle
  imports Complex_Main "HOL-Library.Word"
begin

unbundle bit_operations_syntax

section \<open>Numbers, errors and boxes\<close>

text \<open>
  The viewer (\<^verbatim>\<open>static/js/point-cloud-viewer.js\<close>) and the selection manager
  (\<^verbatim>\<open>static/js/edit/selection-manager.js\<close>) compute with JavaScript numbers.
  Finite numbers are modelled as exact reals: the rounding of IEEE doubles and of
  \<^verbatim>\<open>Float32Array\<close> is outside this model. Where the code stores the value
  \<^verbatim>\<open>Infinity\<close> in a position array, the array holds \<open>jsnum\<close> values: a real,
  one of the two infinities, or NaN, with the arithmetic of IEEE 754 on them.
\<close>

datatype js_error = TypeError | RangeError

record bbox =
  lx :: real
  ly :: real
  lz :: real
  ux :: real
  uy :: real
  uz :: real

record metadata =
  boundingBox :: bbox
  scale :: real
  spacing :: real

datatype jsnum = Num real | PosInfinity | NegInfinity | NaN

fun jneg :: "jsnum \<Rightarrow> jsnum" where
  "jneg (Num a) = Num (- a)"
| "jneg PosInfinity = NegInfinity"
| "jneg NegInfinity = PosInfinity"
| "jneg NaN = NaN"

fun jadd :: "jsnum \<Rightarrow> jsnum \<Rightarrow> jsnum" where
  "jadd (Num a) (Num b) = Num (a + b)"
| "jadd NaN _ = NaN"
| "jadd _ NaN = NaN"
| "jadd PosInfinity NegInfinity = NaN"
| "jadd NegInfinity PosInfinity = NaN"
| "jadd PosInfinity _ = PosInfinity"
| "jadd _ PosInfinity = PosInfinity"
| "jadd NegInfinity _ = NegInfinity"
| "jadd _ NegInfinity = NegInfinity"

definition jsub :: "jsnum \<Rightarrow> jsnum \<Rightarrow> jsnum" where
  "jsub a b = jadd a (jneg b)"

fun jsgn :: "jsnum \<Rightarrow> real" where
  "jsgn (Num a) = sgn a"
| "jsgn PosInfinity = 1"
| "jsgn NegInfinity = - 1"
| "jsgn NaN = 0"

fun jmul :: "jsnum \<Rightarrow> jsnum \<Rightarrow> jsnum" where
  "jmul (Num a) (Num b) = Num (a * b)"
| "jmul NaN _ = NaN"
| "jmul _ NaN = NaN"
| "jmul a b =
     (if jsgn a * jsgn b = 0 then NaN
      else if jsgn a * jsgn b > 0 then PosInfinity else NegInfinity)"

text \<open>\<^verbatim>\<open>a <= b\<close>: false whenever an operand is NaN.\<close>

fun jle :: "jsnum \<Rightarrow> jsnum \<Rightarrow> bool" where
  "jle (Num a) (Num b) = (a \<le> b)"
| "jle NaN _ = False"
| "jle _ NaN = False"
| "jle NegInfinity _ = True"
| "jle _ PosInfinity = True"
| "jle _ _ = False"

text \<open>
  Reading a typed array: an index past the end gives \<^verbatim>\<open>undefined\<close>, which every
  arithmetic operation and every store into a \<^verbatim>\<open>Float32Array\<close> turns into NaN.
  Writing past the end is ignored, as \<open>xs[i := v]\<close> does.
\<close>

definition arr_get :: "jsnum list \<Rightarrow> nat \<Rightarrow> jsnum" where
  "arr_get xs i = (if i < length xs then xs ! i else NaN)"

text \<open>A \<^verbatim>\<open>THREE.Vector3\<close>, or an object with the fields \<^verbatim>\<open>x\<close>, \<^verbatim>\<open>y\<close>, \<^verbatim>\<open>z\<close>.\<close>

record 'a vec3 =
  vx :: 'a
  vy :: 'a
  vz :: 'a

text \<open>A \<^verbatim>\<open>THREE.Box3\<close>: the fields \<^verbatim>\<open>min\<close> and \<^verbatim>\<open>max\<close>.\<close>

record box3 =
  bmin :: "real vec3"
  bmax :: "real vec3"

section \<open>Octree addressing: \<^verbatim>\<open>getNodeBoundingBox\<close>\<close>

text \<open>
  \<^verbatim>\<open>parseInt\<close> of a one-character string: the digit for \<^verbatim>\<open>0\<close> to \<^verbatim>\<open>9\<close>,
  NaN (here \<open>None\<close>) for every other character.
\<close>

definition parseInt :: "char \<Rightarrow> int option" where
  "parseInt c =
     (if 48 \<le> (of_char c :: nat) \<and> (of_char c :: nat) \<le> 57
      then Some (int (of_char c) - 48) else None)"

text \<open>
  \<^verbatim>\<open>octant & m\<close>: the operands are converted to 32-bit integers first, and NaN
  converts to 0. The result is used as a condition: it is true when not zero.
\<close>

definition octant_and :: "int option \<Rightarrow> int \<Rightarrow> bool" where
  "octant_and octant m = (case octant of None \<Rightarrow> False | Some n \<Rightarrow> n AND m \<noteq> 0)"

text \<open>The body of the loop over the octant path: one subdivision step.\<close>

definition subdivide :: "bbox \<Rightarrow> char \<Rightarrow> bbox" where
  "subdivide b c =
     (let octant = parseInt c;
          midX = (lx b + ux b) / 2;
          midY = (ly b + uy b) / 2;
          midZ = (lz b + uz b) / 2;
          b1 = (if octant_and octant 1 then b\<lparr>lx := midX\<rparr> else b\<lparr>ux := midX\<rparr>);
          b2 = (if octant_and octant 2 then b1\<lparr>ly := midY\<rparr> else b1\<lparr>uy := midY\<rparr>);
          b3 = (if octant_and octant 4 then b2\<lparr>lz := midZ\<rparr> else b2\<lparr>uz := midZ\<rparr>)
      in b3)"

primrec traverse_octants :: "bbox \<Rightarrow> string \<Rightarrow> bbox" where
  "traverse_octants b [] = b"
| "traverse_octants b (c # cs) = traverse_octants (subdivide b c) cs"

text \<open>
  \<^verbatim>\<open>getNodeBoundingBox(nodeName)\<close> of the viewer. It reads
  \<^verbatim>\<open>this.potreeMetadata.boundingBox\<close>, which throws a TypeError when the metadata
  has not been loaded; \<^verbatim>\<open>nodeName.substring(1)\<close> drops the first character,
  whatever it is.
\<close>

definition getNodeBoundingBox :: "metadata option \<Rightarrow> string \<Rightarrow> js_error + bbox" where
  "getNodeBoundingBox potreeMetadata nodeName =
     (case potreeMetadata of
        None \<Rightarrow> Inl TypeError
      | Some md \<Rightarrow>
          let rootBbox = boundingBox md in
          if nodeName = ''r'' then Inr rootBbox
          else Inr (traverse_octants rootBbox (drop 1 nodeName)))"

subsection \<open>The addressing contract of the specification\<close>

text \<open>
  The specification's \<^verbatim>\<open>boundsOf(path, rootBox)\<close>, written from its words: a path is a
  sequence of octant digits, processed root to leaf; each digit halves the current box
  at its midpoint on every axis and keeps the upper half in X iff bit 0 of the digit is
  set, in Y iff bit 1 is set, in Z iff bit 2 is set.
\<close>

definition keep_half :: "bool \<Rightarrow> real \<times> real \<Rightarrow> real \<times> real" where
  "keep_half upper I = (let mid = (fst I + snd I) / 2 in if upper then (mid, snd I) else (fst I, mid))"

definition octant_box :: "bbox \<Rightarrow> nat \<Rightarrow> bbox" where
  "octant_box b d =
     (let X = keep_half (bit d 0) (lx b, ux b);
          Y = keep_half (bit d 1) (ly b, uy b);
          Z = keep_half (bit d 2) (lz b, uz b)
      in \<lparr>lx = fst X, ly = fst Y, lz = fst Z, ux = snd X, uy = snd Y, uz = snd Z\<rparr>)"

definition boundsOf :: "nat list \<Rightarrow> bbox \<Rightarrow> bbox" where
  "boundsOf path rootBox = foldl octant_box rootBox path"

text \<open>The node name of a path: the root marker \<^verbatim>\<open>r\<close> followed by the digits.\<close>

definition digit_char :: "nat \<Rightarrow> char" where
  "digit_char d = char_of (48 + d)"

definition node_name :: "nat list \<Rightarrow> string" where
  "node_name path = CHR ''r'' # map digit_char path"

text \<open>
  What a path character contributes when it is not checked: the low three bits of its
  \<^verbatim>\<open>parseInt\<close> value, 0 for NaN.
\<close>

definition octant_of_char :: "char \<Rightarrow> nat" where
  "octant_of_char c = (case parseInt c of None \<Rightarrow> 0 | Some n \<Rightarrow> nat n mod 8)"

section \<open>The selection manager: brush\<close>

text \<open>
  One entry of the undo or redo stack:
  \<^verbatim>\<open>{type: 'delete', points: Map(nodeName -> Set(index)), timestamp}\<close>. A JavaScript
  \<^verbatim>\<open>Map\<close> is an association list in insertion order, a \<^verbatim>\<open>Set\<close> a list without
  repetitions in insertion order.
\<close>

record edit_action =
  atype :: string
  points :: "(string \<times> nat list) list"
  timestamp :: nat

text \<open>
  The fields of \<^verbatim>\<open>SelectionManager\<close> that carry state; the meshes and overlay
  geometries it draws with belong to the renderer. A stack grows at the end of its list
  (\<^verbatim>\<open>push\<close>) and shrinks there (\<^verbatim>\<open>pop\<close>).
\<close>

record selection_manager =
  selectedPoints :: "(string \<times> nat list) list"
  selectionCount :: nat
  brushRadius :: real
  brushDistance :: real
  brushPosition :: "real vec3"
  brushActive :: bool
  isPainting :: bool
  editModeActive :: bool
  undoStack :: "edit_action list"
  redoStack :: "edit_action list"

text \<open>The state the constructor sets up.\<close>

definition new_SelectionManager :: selection_manager where
  "new_SelectionManager =
     \<lparr>selectedPoints = [], selectionCount = 0, brushRadius = 0.25, brushDistance = 3.0,
      brushPosition = \<lparr>vx = 0, vy = 0, vz = 0\<rparr>, brushActive = False, isPainting = False,
      editModeActive = False, undoStack = [], redoStack = []\<rparr>"

text \<open>
  \<^verbatim>\<open>updateBrushSize(newRadius)\<close>:
  \<^verbatim>\<open>this.brushRadius = Math.max(0.05, Math.min(5.0, newRadius))\<close>, for a finite
  argument; the rest of the function rebuilds the brush meshes and the status text.
\<close>

definition updateBrushSize :: "selection_manager \<Rightarrow> real \<Rightarrow> selection_manager" where
  "updateBrushSize sm newRadius = sm\<lparr>brushRadius := max 0.05 (min 5.0 newRadius)\<rparr>"

text \<open>\<^verbatim>\<open>onWheel(event)\<close>, with \<^verbatim>\<open>event.deltaY\<close> as its input.\<close>

definition onWheel :: "selection_manager \<Rightarrow> real \<Rightarrow> selection_manager" where
  "onWheel sm deltaY =
     (if \<not> editModeActive sm then sm
      else let delta = (if deltaY > 0 then 0.9 else 1.1)
           in updateBrushSize sm (brushRadius sm * delta))"

section \<open>The selection manager: brush queries and pruning\<close>

text \<open>A \<^verbatim>\<open>THREE.Sphere\<close>: the brush, with its centre and its radius.\<close>

record brush_sphere =
  center :: "real vec3"
  radius :: real

text \<open>
  Modelled from the spec: \<^verbatim>\<open>Vector3.distanceToSquared\<close> belongs to the three.js library,
  which is not part of the source tree. The specification names the quantity: the squared
  Euclidean distance from a point to the centre. It is computed on \<open>jsnum\<close>
  coordinates, since a position array can hold \<^verbatim>\<open>Infinity\<close>.
\<close>

definition distanceToSquared :: "jsnum vec3 \<Rightarrow> real vec3 \<Rightarrow> jsnum" where
  "distanceToSquared p c =
     (let dx = jsub (vx p) (Num (vx c));
          dy = jsub (vy p) (Num (vy c));
          dz = jsub (vz p) (Num (vz c))
      in jadd (jadd (jmul dx dx) (jmul dy dy)) (jmul dz dz))"

text \<open>
  Modelled from the spec: \<^verbatim>\<open>Sphere.containsPoint\<close> belongs to the three.js library too.
  The specification gives the test: a point is contained iff its squared Euclidean
  distance to the centre is at most the radius squared.
\<close>

definition containsPoint :: "brush_sphere \<Rightarrow> jsnum vec3 \<Rightarrow> bool" where
  "containsPoint s p = jle (distanceToSquared p (center s)) (Num (radius s * radius s))"

text \<open>
  The closures of \<^verbatim>\<open>updateHighlightOverlay\<close>. They capture the brush position
  \<^verbatim>\<open>brushX, brushY, brushZ\<close>, the radius and the offset \<^verbatim>\<open>pcOffset\<close> of the point
  cloud; here these are the fields of a record passed to each of them.
\<close>

record brush_query =
  brushX :: real
  brushY :: real
  brushZ :: real
  qradius :: real
  pcOffset :: "real vec3"

text \<open>\<^verbatim>\<open>bboxIntersectsQuery(bbox)\<close>; a missing box (\<^verbatim>\<open>null\<close>) cannot be culled.\<close>

definition bboxIntersectsQuery :: "brush_query \<Rightarrow> box3 option \<Rightarrow> bool" where
  "bboxIntersectsQuery q bbox =
     (case bbox of
        None \<Rightarrow> True
      | Some b \<Rightarrow>
          let radiusSq = qradius q * qradius q;
              nodeMinX = vx (bmin b); nodeMaxX = vx (bmax b);
              nodeMinY = vy (bmin b); nodeMaxY = vy (bmax b);
              nodeMinZ = vz (bmin b);
              closestX = max nodeMinX (min (brushX q) nodeMaxX);
              closestY = max nodeMinY (min (brushY q) nodeMaxY);
              distXYSqToBox = (closestX - brushX q) ^ 2 + (closestY - brushY q) ^ 2
          in if distXYSqToBox > radiusSq then False
             else if nodeMinZ > brushZ q + qradius q then False
             else True)"

text \<open>\<^verbatim>\<open>toWorldBbox(localBbox)\<close>.\<close>

definition toWorldBbox :: "brush_query \<Rightarrow> box3 option \<Rightarrow> box3 option" where
  "toWorldBbox q localBbox =
     (case localBbox of
        None \<Rightarrow> None
      | Some b \<Rightarrow>
          Some \<lparr>bmin = \<lparr>vx = vx (bmin b) + vx (pcOffset q), vy = vy (bmin b) + vy (pcOffset q),
                         vz = vz (bmin b) + vz (pcOffset q)\<rparr>,
                bmax = \<lparr>vx = vx (bmax b) + vx (pcOffset q), vy = vy (bmax b) + vy (pcOffset q),
                         vz = vz (bmax b) + vz (pcOffset q)\<rparr>\<rparr>)"

text \<open>
  The body of the point loop of \<^verbatim>\<open>processNodePoints\<close>, for one point already
  transformed to world space (the transformation by \<^verbatim>\<open>matrixWorld\<close> is three.js's):
  the point goes to the highlight list, to the shadow list, or to neither.
\<close>

datatype overlay_class = Highlight | Shadow | Neither

definition classify_point :: "brush_query \<Rightarrow> real vec3 \<Rightarrow> overlay_class" where
  "classify_point q worldPt =
     (let radiusSq = qradius q * qradius q;
          px = vx worldPt; py = vy worldPt; pz = vz worldPt;
          dxXY = px - brushX q;
          dyXY = py - brushY q;
          distXYSq = dxXY * dxXY + dyXY * dyXY
      in if distXYSq > radiusSq then Neither
         else let dz = pz - brushZ q;
                  dist3DSq = distXYSq + dz * dz
              in if dist3DSq < radiusSq then Highlight
                 else if pz < brushZ q then Shadow
                 else Neither)"

text \<open>
  \<^verbatim>\<open>processNodePoints\<close>: the highlight and shadow lists grow by the points of the
  node, in order.
\<close>

definition processNodePoints ::
  "brush_query \<Rightarrow> real vec3 list \<Rightarrow> real vec3 list \<times> real vec3 list \<Rightarrow> real vec3 list \<times> real vec3 list" where
  "processNodePoints q worldPts acc =
     foldl (\<lambda>(highlightPositions, shadowPositions) worldPt.
              case classify_point q worldPt of
                Highlight \<Rightarrow> (highlightPositions @ [worldPt], shadowPositions)
              | Shadow \<Rightarrow> (highlightPositions, shadowPositions @ [worldPt])
              | Neither \<Rightarrow> (highlightPositions, shadowPositions))
           acc worldPts"

text \<open>
  A node of the octree that \<^verbatim>\<open>traverseOctree\<close> walks: its name, its bounding box in
  local coordinates (possibly missing) and its children that are not \<^verbatim>\<open>null\<close>.
\<close>

datatype octree_node = OctreeNode string "box3 option" "octree_node list"

text \<open>
  \<^verbatim>\<open>traverseOctree(octreeNode, visibleNodesMap)\<close>. The map gives, for the name of each
  node with loaded geometry, the points of its scene node in world space. A node whose
  box fails \<^verbatim>\<open>bboxIntersectsQuery\<close> is left with its whole subtree.
\<close>

fun traverseOctree ::
  "brush_query \<Rightarrow> (string \<rightharpoonup> real vec3 list) \<Rightarrow> octree_node
     \<Rightarrow> real vec3 list \<times> real vec3 list \<Rightarrow> real vec3 list \<times> real vec3 list" where
  "traverseOctree q visibleNodesMap (OctreeNode nodeName localBbox children) acc =
     (if \<not> bboxIntersectsQuery q (toWorldBbox q localBbox) then acc
      else
        let acc1 = (case visibleNodesMap nodeName of
                      Some worldPts \<Rightarrow> processNodePoints q worldPts acc
                    | None \<Rightarrow> acc)
        in fold (traverseOctree q visibleNodesMap) children acc1)"

text \<open>The same walk without culling: every node of the tree is processed.\<close>

fun traverseAll ::
  "brush_query \<Rightarrow> (string \<rightharpoonup> real vec3 list) \<Rightarrow> octree_node
     \<Rightarrow> real vec3 list \<times> real vec3 list \<Rightarrow> real vec3 list \<times> real vec3 list" where
  "traverseAll q visibleNodesMap (OctreeNode nodeName localBbox children) acc =
     (let acc1 = (case visibleNodesMap nodeName of
                    Some worldPts \<Rightarrow> processNodePoints q worldPts acc
                  | None \<Rightarrow> acc)
      in fold (traverseAll q visibleNodesMap) children acc1)"

text \<open>A point lies inside a box.\<close>

definition inside_box :: "box3 \<Rightarrow> real vec3 \<Rightarrow> bool" where
  "inside_box b p =
     (vx (bmin b) \<le> vx p \<and> vx p \<le> vx (bmax b) \<and>
      vy (bmin b) \<le> vy p \<and> vy p \<le> vy (bmax b) \<and>
      vz (bmin b) \<le> vz p \<and> vz p \<le> vz (bmax b))"

text \<open>The coordinates of a finite point as \<open>jsnum\<close> values.\<close>

definition finite_point :: "real vec3 \<Rightarrow> jsnum vec3" where
  "finite_point p = \<lparr>vx = Num (vx p), vy = Num (vy p), vz = Num (vz p)\<rparr>"

text \<open>The world points of all the loaded nodes of a subtree.\<close>

fun subtree_points :: "(string \<rightharpoonup> real vec3 list) \<Rightarrow> octree_node \<Rightarrow> real vec3 list" where
  "subtree_points visibleNodesMap (OctreeNode nodeName localBbox children) =
     (case visibleNodesMap nodeName of Some worldPts \<Rightarrow> worldPts | None \<Rightarrow> [])
     @ concat (map (subtree_points visibleNodesMap) children)"

text \<open>
  The octree is spatially consistent: every box that is present encloses, in world
  coordinates, the points of its node and of all the nodes below it.
\<close>

fun boxes_enclose :: "brush_query \<Rightarrow> (string \<rightharpoonup> real vec3 list) \<Rightarrow> octree_node \<Rightarrow> bool" where
  "boxes_enclose q visibleNodesMap (OctreeNode nodeName localBbox children) =
     ((case toWorldBbox q localBbox of
         None \<Rightarrow> True
       | Some worldBbox \<Rightarrow>
           list_all (inside_box worldBbox)
             (subtree_points visibleNodesMap (OctreeNode nodeName localBbox children)))
      \<and> list_all (boxes_enclose q visibleNodesMap) children)"

text \<open>The sphere of the brush of a query.\<close>

definition query_sphere :: "brush_query \<Rightarrow> brush_sphere" where
  "query_sphere q = \<lparr>center = \<lparr>vx = brushX q, vy = brushY q, vz = brushZ q\<rparr>, radius = qradius q\<rparr>"

section \<open>The viewer: point records\<close>

text \<open>
  The bytes of a fetched \<^verbatim>\<open>ArrayBuffer\<close>, read through a \<^verbatim>\<open>DataView\<close>.
  \<^verbatim>\<open>getInt32(byteOffset, true)\<close> reads four bytes as a little-endian two's complement
  integer, \<^verbatim>\<open>getUint8(byteOffset)\<close> one byte; both throw a RangeError when the bytes
  they need do not all lie inside the buffer.
\<close>

definition int32_le :: "8 word \<Rightarrow> 8 word \<Rightarrow> 8 word \<Rightarrow> 8 word \<Rightarrow> int" where
  "int32_le b0 b1 b2 b3 =
     (let u = uint b0 + 256 * uint b1 + 65536 * uint b2 + 16777216 * uint b3
      in if u < 2147483648 then u else u - 4294967296)"

definition getInt32 :: "8 word list \<Rightarrow> nat \<Rightarrow> js_error + int" where
  "getInt32 view byteOffset =
     (if byteOffset + 4 \<le> length view
      then Inr (int32_le (view ! byteOffset) (view ! (byteOffset + 1))
                  (view ! (byteOffset + 2)) (view ! (byteOffset + 3)))
      else Inl RangeError)"

definition getUint8 :: "8 word list \<Rightarrow> nat \<Rightarrow> js_error + nat" where
  "getUint8 view byteOffset =
     (if byteOffset < length view then Inr (unat (view ! byteOffset)) else Inl RangeError)"

text \<open>Sequencing of steps that may throw: the first error ends the computation.\<close>

definition and_then :: "js_error + 'a \<Rightarrow> ('a \<Rightarrow> js_error + 'b) \<Rightarrow> js_error + 'b" where
  "and_then r f = (case r of Inl e \<Rightarrow> Inl e | Inr a \<Rightarrow> f a)"

text \<open>
  The body of the loop \<^verbatim>\<open>for (let i = 0; i < numPoints; i++)\<close> of
  \<^verbatim>\<open>loadPotreeNodeIfExists\<close>: the three coordinates and the three colour channels
  that one iteration pushes. The offset \<^verbatim>\<open>this.potreeOffset\<close> is added when it is set.
\<close>

definition read_point ::
  "8 word list \<Rightarrow> real \<Rightarrow> bbox \<Rightarrow> real vec3 option \<Rightarrow> nat \<Rightarrow> js_error + real list \<times> real list" where
  "read_point view scl bb potreeOff i =
     (let offset = i * 16 in
      and_then (getInt32 view offset) (\<lambda>xi.
      and_then (getInt32 view (offset + 4)) (\<lambda>yi.
      and_then (getInt32 view (offset + 8)) (\<lambda>zi.
        let x0 = real_of_int xi * scl + lx bb;
            y0 = real_of_int yi * scl + ly bb;
            z0 = real_of_int zi * scl + lz bb;
            x = (case potreeOff of None \<Rightarrow> x0 | Some off \<Rightarrow> x0 + vx off);
            y = (case potreeOff of None \<Rightarrow> y0 | Some off \<Rightarrow> y0 + vy off);
            z = (case potreeOff of None \<Rightarrow> z0 | Some off \<Rightarrow> z0 + vz off)
        in
        and_then (getUint8 view (offset + 12)) (\<lambda>r8.
        and_then (getUint8 view (offset + 13)) (\<lambda>g8.
        and_then (getUint8 view (offset + 14)) (\<lambda>b8.
          Inr ([x, y, z], [real r8 / 255.0, real g8 / 255.0, real b8 / 255.0]))))))))"

text \<open>
  The loop itself. \<^verbatim>\<open>numPoints = buffer.byteLength / 16\<close> is a division of numbers,
  not of integers: the loop runs while \<open>i\<close> is below the quotient, which need not be whole.
\<close>

function read_points ::
  "8 word list \<Rightarrow> real \<Rightarrow> bbox \<Rightarrow> real vec3 option \<Rightarrow> nat \<Rightarrow> real list \<Rightarrow> real list
     \<Rightarrow> js_error + real list \<times> real list" where
  "read_points view scl bb potreeOff i vertices colors =
     (if real i < real (length view) / 16
      then (case read_point view scl bb potreeOff i of
              Inl e \<Rightarrow> Inl e
            | Inr (ps, cs) \<Rightarrow> read_points view scl bb potreeOff (i + 1) (vertices @ ps) (colors @ cs))
      else Inr (vertices, colors))"
  by pat_completeness auto
termination
  by (relation "measure (\<lambda>(view, scl, bb, potreeOff, i, vertices, colors). length view - 16 * i)") auto

text \<open>
  The decoding part of \<^verbatim>\<open>loadPotreeNodeIfExists\<close>, from the buffer to the arrays
  \<^verbatim>\<open>vertices\<close> and \<^verbatim>\<open>colors\<close>: the specification's
  \<^verbatim>\<open>decode(buffer, nodeBox, scale, worldOffset)\<close>.
\<close>

definition decode ::
  "8 word list \<Rightarrow> bbox \<Rightarrow> real \<Rightarrow> real vec3 option \<Rightarrow> js_error + real list \<times> real list" where
  "decode buffer nodeBox scl worldOffset = read_points buffer scl nodeBox worldOffset 0 [] []"

text \<open>
  The position and the colour of record \<open>i\<close> as the specification states them: the
  three little-endian signed 32-bit integers times the scale, plus the minimum of the
  node's box, plus the world offset, per axis; the first three of the four trailing bytes
  divided by 255.
\<close>

definition record_position :: "8 word list \<Rightarrow> bbox \<Rightarrow> real \<Rightarrow> real vec3 \<Rightarrow> nat \<Rightarrow> real list" where
  "record_position buffer nodeBox scl worldOffset i =
     [real_of_int (int32_le (buffer ! (16 * i)) (buffer ! (16 * i + 1)) (buffer ! (16 * i + 2))
                     (buffer ! (16 * i + 3))) * scl + lx nodeBox + vx worldOffset,
      real_of_int (int32_le (buffer ! (16 * i + 4)) (buffer ! (16 * i + 5)) (buffer ! (16 * i + 6))
                     (buffer ! (16 * i + 7))) * scl + ly nodeBox + vy worldOffset,
      real_of_int (int32_le (buffer ! (16 * i + 8)) (buffer ! (16 * i + 9)) (buffer ! (16 * i + 10))
                     (buffer ! (16 * i + 11))) * scl + lz nodeBox + vz worldOffset]"

definition record_color :: "8 word list \<Rightarrow> nat \<Rightarrow> real list" where
  "record_color buffer i =
     [real (unat (buffer ! (16 * i + 12))) / 255,
      real (unat (buffer ! (16 * i + 13))) / 255,
      real (unat (buffer ! (16 * i + 14))) / 255]"

text \<open>The offset that is added: none when \<^verbatim>\<open>this.potreeOffset\<close> is not set.\<close>

definition offset_or_zero :: "real vec3 option \<Rightarrow> real vec3" where
  "offset_or_zero potreeOff =
     (case potreeOff of None \<Rightarrow> \<lparr>vx = 0, vy = 0, vz = 0\<rparr> | Some off \<Rightarrow> off)"

section \<open>The viewer: the node store\<close>

text \<open>
  A \<^verbatim>\<open>THREE.Points\<close> object of a loaded node: its name, the arrays of its position
  and colour attributes, its visibility flag, and the \<^verbatim>\<open>userData\<close> entries that the
  selection manager keeps on it. Its material belongs to the renderer.
\<close>

record pointsObj =
  name :: string
  position :: "jsnum list"
  color :: "jsnum list"
  visible :: bool
  originalPositions :: "jsnum list option"
  originalColors :: "jsnum list option"
  deletedPoints :: "nat list option"

text \<open>
  What \<^verbatim>\<open>fetch\<close> and \<^verbatim>\<open>response.arrayBuffer()\<close> can give for the file of a node:
  a response that is not ok, the bytes of the file, or a rejected promise.
\<close>

datatype response = NotOk | Ok "8 word list" | Rejected

text \<open>
  The fields of \<^verbatim>\<open>PointCloudViewer\<close> behind the level-of-detail loader. The source
  tree has no statement that creates the containers \<^verbatim>\<open>potreeNodes\<close>,
  \<^verbatim>\<open>potreeLoadedNodes\<close>, \<^verbatim>\<open>potreeLoading\<close> and \<^verbatim>\<open>potreeFailedNodes\<close>; the functions
  use them as a \<^verbatim>\<open>Map\<close> and three \<^verbatim>\<open>Set\<close>s, and so they are here. \<open>scene\<close> lists
  the names of the objects added to the scene, \<open>requests\<close> the URLs fetched so far,
  \<open>selectionManager\<close> tells whether the selection manager exists, and
  \<open>potreePointCloud\<close> is the position of the Potree point cloud, when there is one.
\<close>

record viewer =
  potreeMetadata :: "metadata option"
  potreeOffset :: "real vec3 option"
  currentLODDepth :: int
  potreeNodes :: "(string \<times> pointsObj) list"
  potreeLoadedNodes :: "string set"
  potreeLoading :: "string set"
  potreeFailedNodes :: "string set"
  scene :: "string list"
  requests :: "string list"
  selectionManager :: bool
  potreePointCloud :: "real vec3 option"

text \<open>\<^verbatim>\<open>Map.prototype.set\<close>: an existing key keeps its place, a new one goes last.\<close>

primrec map_set :: "('k \<times> 'v) list \<Rightarrow> 'k \<Rightarrow> 'v \<Rightarrow> ('k \<times> 'v) list" where
  "map_set [] k v = [(k, v)]"
| "map_set (e # es) k v = (if fst e = k then (k, v) # es else e # map_set es k v)"

text \<open>\<^verbatim>\<open>storeOriginalPositions(node)\<close> of the selection manager: copies of both arrays.\<close>

definition storeOriginalPositions :: "pointsObj \<Rightarrow> pointsObj" where
  "storeOriginalPositions node =
     node\<lparr>originalPositions := Some (position node), originalColors := Some (color node)\<rparr>"

text \<open>The two places where a load ends in failure: the response is not ok, or the
  \<^verbatim>\<open>catch\<close> block runs.\<close>

definition load_failed :: "string \<Rightarrow> viewer \<Rightarrow> viewer" where
  "load_failed nodeName v =
     v\<lparr>potreeLoading := potreeLoading v - {nodeName},
       potreeFailedNodes := insert nodeName (potreeFailedNodes v)\<rparr>"

text \<open>
  The statements of the \<^verbatim>\<open>try\<close> block from the buffer to the arrays: reading
  \<^verbatim>\<open>this.potreeMetadata.scale\<close> throws a TypeError without metadata.
\<close>

definition parse_node :: "viewer \<Rightarrow> string \<Rightarrow> 8 word list \<Rightarrow> js_error + real list \<times> real list" where
  "parse_node v nodeName buffer =
     (case potreeMetadata v of
        None \<Rightarrow> Inl TypeError
      | Some md \<Rightarrow>
          and_then (getNodeBoundingBox (potreeMetadata v) nodeName) (\<lambda>bb.
            decode buffer bb (scale md) (potreeOffset v)))"

text \<open>The statements after the loop: the new object is built, added to the scene and
  recorded as loaded.\<close>

definition install_node :: "string \<Rightarrow> real list \<Rightarrow> real list \<Rightarrow> viewer \<Rightarrow> viewer" where
  "install_node nodeName vertices colors v =
     (let pointsObj0 = \<lparr>name = ''potree_'' @ nodeName, position = map Num vertices,
                         color = map Num colors, visible = True, originalPositions = None,
                         originalColors = None, deletedPoints = None\<rparr>;
          pointsObj1 = (if selectionManager v then storeOriginalPositions pointsObj0 else pointsObj0)
      in v\<lparr>scene := scene v @ [name pointsObj1],
           potreeNodes := map_set (potreeNodes v) nodeName pointsObj1,
           potreeLoadedNodes := insert nodeName (potreeLoadedNodes v),
           potreeLoading := potreeLoading v - {nodeName}\<rparr>)"

text \<open>
  \<^verbatim>\<open>loadPotreeNodeIfExists(nodeName)\<close>, run from its call to its end, with the answer
  of the server as the argument \<open>fetch\<close>. The positioning of the camera after the first
  load belongs to the renderer.
\<close>

definition loadPotreeNodeIfExists :: "(string \<Rightarrow> response) \<Rightarrow> string \<Rightarrow> viewer \<Rightarrow> viewer" where
  "loadPotreeNodeIfExists fetch nodeName v =
     (if nodeName \<in> potreeLoadedNodes v \<or> nodeName \<in> potreeLoading v
         \<or> nodeName \<in> potreeFailedNodes v
      then v
      else
        let v1 = v\<lparr>potreeLoading := insert nodeName (potreeLoading v),
                   requests := requests v @ [''/potree/data/r/'' @ nodeName @ ''.bin'']\<rparr>
        in case fetch nodeName of
             Rejected \<Rightarrow> load_failed nodeName v1
           | NotOk \<Rightarrow> load_failed nodeName v1
           | Ok buffer \<Rightarrow>
               (case parse_node v1 nodeName buffer of
                  Inl e \<Rightarrow> load_failed nodeName v1
                | Inr (vertices, colors) \<Rightarrow> install_node nodeName vertices colors v1))"

section \<open>The viewer: level of detail\<close>

text \<open>\<^verbatim>\<open>updatePotreeNodeVisibility(maxDepth)\<close>; the depth of a node is the length of
  its name minus one.\<close>

definition updatePotreeNodeVisibility :: "int \<Rightarrow> viewer \<Rightarrow> viewer" where
  "updatePotreeNodeVisibility maxDepth v =
     v\<lparr>potreeNodes :=
         map (\<lambda>(nodeName, pointsObj).
                let depth = int (length nodeName) - 1;
                    shouldShow = (depth \<le> maxDepth)
                in (nodeName, pointsObj\<lparr>visible := shouldShow\<rparr>))
             (potreeNodes v)\<rparr>"

text \<open>\<^verbatim>\<open>decreaseLODDepth()\<close>.\<close>

definition decreaseLODDepth :: "viewer \<Rightarrow> viewer" where
  "decreaseLODDepth v =
     (if currentLODDepth v \<le> 0 then v
      else let v1 = v\<lparr>currentLODDepth := currentLODDepth v - 1\<rparr>
           in updatePotreeNodeVisibility (currentLODDepth v1) v1)"

text \<open>The local function \<^verbatim>\<open>generateNodes(prefix, currentDepth)\<close> of
  \<^verbatim>\<open>loadNodesForDepth(depth)\<close>: the names it pushes, in order.\<close>

function generateNodes :: "int \<Rightarrow> string \<Rightarrow> int \<Rightarrow> string list" where
  "generateNodes depth prefix currentDepth =
     prefix # (if currentDepth < depth
               then concat (map (\<lambda>i. generateNodes depth (prefix @ [digit_char i]) (currentDepth + 1))
                              [0..<8])
               else [])"
  by pat_completeness auto
termination
  by (relation "measure (\<lambda>(depth, prefix, currentDepth). nat (depth - currentDepth))") auto

declare generateNodes.simps [simp del]

text \<open>
  \<^verbatim>\<open>loadNodesForDepth(depth)\<close>. The loads it starts run concurrently in the source
  and complete in an order the network decides; here each runs to its end before the
  next starts, in the order of the list.
\<close>

definition loadNodesForDepth :: "(string \<Rightarrow> response) \<Rightarrow> int \<Rightarrow> viewer \<Rightarrow> viewer" where
  "loadNodesForDepth fetch depth v =
     (let nodesToLoad = generateNodes depth ''r'' 0;
          toLoad = filter (\<lambda>nodeName. nodeName \<notin> potreeLoadedNodes v \<and> nodeName \<notin> potreeFailedNodes v)
                     nodesToLoad
      in foldl (\<lambda>v' nodeName. loadPotreeNodeIfExists fetch nodeName v') v toLoad)"

text \<open>\<^verbatim>\<open>increaseLODDepth()\<close>.\<close>

definition increaseLODDepth :: "(string \<Rightarrow> response) \<Rightarrow> viewer \<Rightarrow> viewer" where
  "increaseLODDepth fetch v =
     (if currentLODDepth v \<ge> 6 then v
      else let v1 = v\<lparr>currentLODDepth := currentLODDepth v + 1\<rparr>;
               v2 = loadNodesForDepth fetch (currentLODDepth v1) v1
           in updatePotreeNodeVisibility (currentLODDepth v2) v2)"

section \<open>The selection manager: selecting and editing\<close>

text \<open>
  \<^verbatim>\<open>Set.prototype.add\<close> and \<^verbatim>\<open>delete\<close> on a set of indices, \<^verbatim>\<open>Map.prototype.get\<close>
  on a map from node names.
\<close>

definition set_add :: "nat list \<Rightarrow> nat \<Rightarrow> nat list" where
  "set_add s i = (if i \<in> set s then s else s @ [i])"

definition set_delete :: "nat list \<Rightarrow> nat \<Rightarrow> nat list" where
  "set_delete s i = filter (\<lambda>j. j \<noteq> i) s"

definition map_get :: "(string \<times> 'v) list \<Rightarrow> string \<Rightarrow> 'v option" where
  "map_get m k = map_of m k"

text \<open>
  \<^verbatim>\<open>getLoadedNodes()\<close>, for the nodes of the viewer's own store
  \<^verbatim>\<open>viewer.potreeNodes\<close>: each is given under its key, the node name. The other
  sources the function scans (an uploaded cloud, the scene objects of the Potree library)
  are outside this model. The store is a \<^verbatim>\<open>Map\<close>, so a name is the key of one node,
  and \<^verbatim>\<open>nodes.find(n => n.name === nodeName)\<close> finds the node itself.
\<close>

definition getLoadedNodes :: "viewer \<Rightarrow> (string \<times> pointsObj) list" where
  "getLoadedNodes v = potreeNodes v"

text \<open>
  The functions below loop over \<^verbatim>\<open>getLoadedNodes()\<close> and change the objects in
  place; \<open>for_each_node f\<close> is that loop, \<open>f\<close> the change to one node.
\<close>

definition for_each_node :: "(string \<Rightarrow> pointsObj \<Rightarrow> pointsObj) \<Rightarrow> viewer \<Rightarrow> viewer" where
  "for_each_node f v =
     v\<lparr>potreeNodes := map (\<lambda>(nodeName, sceneNode). (nodeName, f nodeName sceneNode)) (getLoadedNodes v)\<rparr>"

text \<open>The offset that \<^verbatim>\<open>getNodePositionData\<close> returns with the position array.\<close>

definition position_offset :: "viewer \<Rightarrow> real vec3" where
  "position_offset v =
     (case potreePointCloud v of None \<Rightarrow> \<lparr>vx = 0, vy = 0, vz = 0\<rparr> | Some pos \<Rightarrow> pos)"

text \<open>
  Point \<open>i\<close> of a position array, moved by the offset: the
  \<^verbatim>\<open>new THREE.Vector3(...)\<close> at the head of the point loop of \<^verbatim>\<open>paintSelection\<close>.
\<close>

definition point_at :: "jsnum list \<Rightarrow> real vec3 \<Rightarrow> nat \<Rightarrow> jsnum vec3" where
  "point_at positions offset i =
     \<lparr>vx = jadd (arr_get positions (i * 3)) (Num (vx offset)),
      vy = jadd (arr_get positions (i * 3 + 1)) (Num (vy offset)),
      vz = jadd (arr_get positions (i * 3 + 2)) (Num (vz offset))\<rparr>"

text \<open>
  The body of the point loop of \<^verbatim>\<open>paintSelection\<close>: the map of selected points and
  the list \<^verbatim>\<open>newSelections\<close> after point \<open>i\<close> of the node has been tested.
\<close>

definition paint_point ::
  "brush_sphere \<Rightarrow> string \<Rightarrow> jsnum list \<Rightarrow> real vec3 \<Rightarrow> nat
     \<Rightarrow> (string \<times> nat list) list \<times> (string \<times> nat) list
     \<Rightarrow> (string \<times> nat list) list \<times> (string \<times> nat) list" where
  "paint_point brushSphere nodeName positions offset i acc =
     (let selected = fst acc; newSelections = snd acc;
          point = point_at positions offset i
      in if containsPoint brushSphere point
         then let selected1 = (if map_get selected nodeName = None
                               then map_set selected nodeName [] else selected);
                  indices = (case map_get selected1 nodeName of None \<Rightarrow> [] | Some s \<Rightarrow> s)
              in if i \<notin> set indices
                 then (map_set selected1 nodeName (set_add indices i),
                       newSelections @ [(nodeName, i)])
                 else (selected1, newSelections)
         else (selected, newSelections))"

text \<open>
  The point loop: \<^verbatim>\<open>pointCount = positions.length / 3\<close> is a division of numbers,
  and the loop runs while \<open>i\<close> is below it.
\<close>

function paint_node ::
  "brush_sphere \<Rightarrow> string \<Rightarrow> jsnum list \<Rightarrow> real vec3 \<Rightarrow> nat
     \<Rightarrow> (string \<times> nat list) list \<times> (string \<times> nat) list
     \<Rightarrow> (string \<times> nat list) list \<times> (string \<times> nat) list" where
  "paint_node brushSphere nodeName positions offset i acc =
     (if real i < real (length positions) / 3
      then paint_node brushSphere nodeName positions offset (i + 1)
             (paint_point brushSphere nodeName positions offset i acc)
      else acc)"
  by pat_completeness auto
termination
  by (relation "measure (\<lambda>(brushSphere, nodeName, positions, offset, i, acc). length positions - 3 * i)")
    auto

text \<open>\<^verbatim>\<open>countSelectedPoints()\<close>.\<close>

definition countSelectedPoints :: "(string \<times> nat list) list \<Rightarrow> nat" where
  "countSelectedPoints selected = sum_list (map (\<lambda>(nodeName, indices). length indices) selected)"

text \<open>
  \<^verbatim>\<open>paintSelection()\<close>; the overlay and the status text it refreshes at the end belong
  to the renderer.
\<close>

definition paintSelection :: "viewer \<Rightarrow> selection_manager \<Rightarrow> selection_manager" where
  "paintSelection v sm =
     (let brushSphere = \<lparr>center = brushPosition sm, radius = brushRadius sm\<rparr>;
          nodes = getLoadedNodes v
      in if nodes = [] then sm
         else
           let acc = foldl (\<lambda>acc (nodeName, sceneNode).
                              paint_node brushSphere nodeName (position sceneNode)
                                (position_offset v) 0 acc)
                       (selectedPoints sm, []) nodes;
               sm1 = sm\<lparr>selectedPoints := fst acc\<rparr>
           in if snd acc \<noteq> [] then sm1\<lparr>selectionCount := countSelectedPoints (fst acc)\<rparr>
              else sm1)"

text \<open>
  Moving a deleted point out of sight:
  \<^verbatim>\<open>positions.array[idx * 3] = Infinity\<close> and the two entries after it.
\<close>

definition hide_point :: "jsnum list \<Rightarrow> nat \<Rightarrow> jsnum list" where
  "hide_point positions idx =
     positions[idx * 3 := PosInfinity, idx * 3 + 1 := PosInfinity, idx * 3 + 2 := PosInfinity]"

text \<open>Copying the three entries of a point from a stored array.\<close>

definition restore_point :: "jsnum list \<Rightarrow> jsnum list \<Rightarrow> nat \<Rightarrow> jsnum list" where
  "restore_point original arr idx =
     arr[idx * 3 := arr_get original (idx * 3),
         idx * 3 + 1 := arr_get original (idx * 3 + 1),
         idx * 3 + 2 := arr_get original (idx * 3 + 2)]"

text \<open>The set \<^verbatim>\<open>sceneNode.userData.deletedPoints\<close>, empty when it does not exist.\<close>

definition deleted_of :: "pointsObj \<Rightarrow> nat list" where
  "deleted_of sceneNode = (case deletedPoints sceneNode of None \<Rightarrow> [] | Some d \<Rightarrow> d)"

text \<open>The body of the node loop of \<^verbatim>\<open>deleteSelectedPoints\<close>.\<close>

definition delete_in_node :: "(string \<times> nat list) list \<Rightarrow> string \<Rightarrow> pointsObj \<Rightarrow> pointsObj" where
  "delete_in_node selected nodeName sceneNode =
     (case map_get selected nodeName of
        None \<Rightarrow> sceneNode
      | Some selectedIndices \<Rightarrow>
          if selectedIndices = [] then sceneNode
          else sceneNode
                 \<lparr>deletedPoints := Some (foldl set_add (deleted_of sceneNode) selectedIndices),
                  position := foldl hide_point (position sceneNode) selectedIndices\<rparr>)"

text \<open>
  \<^verbatim>\<open>deleteSelectedPoints()\<close>, with the value of \<^verbatim>\<open>Date.now()\<close> as an argument. The
  state is the viewer together with the selection manager.
\<close>

definition deleteSelectedPoints ::
  "nat \<Rightarrow> viewer \<times> selection_manager \<Rightarrow> viewer \<times> selection_manager" where
  "deleteSelectedPoints now st =
     (let v = fst st; sm = snd st
      in if selectionCount sm = 0 then st
         else
           let deletedPoints = map (\<lambda>(nodeName, indices). (nodeName, indices)) (selectedPoints sm);
               sm1 = sm\<lparr>undoStack := undoStack sm
                          @ [\<lparr>atype = ''delete'', points = deletedPoints, timestamp = now\<rparr>],
                        redoStack := []\<rparr>;
               v1 = for_each_node (delete_in_node (selectedPoints sm1)) v
           in (v1, sm1\<lparr>selectedPoints := [], selectionCount := 0\<rparr>))"

text \<open>\<^verbatim>\<open>restorePointColors(nodeName, indices)\<close>, on the node it finds.\<close>

definition restorePointColors :: "nat list \<Rightarrow> pointsObj \<Rightarrow> pointsObj" where
  "restorePointColors indices node =
     (case originalColors node of
        None \<Rightarrow> node
      | Some original \<Rightarrow> node\<lparr>color := foldl (restore_point original) (color node) indices\<rparr>)"

text \<open>The body of the node loop of \<^verbatim>\<open>undo\<close>.\<close>

definition undo_in_node :: "edit_action \<Rightarrow> string \<Rightarrow> pointsObj \<Rightarrow> pointsObj" where
  "undo_in_node action nodeName sceneNode =
     (case map_get (points action) nodeName of
        None \<Rightarrow> sceneNode
      | Some deletedIndices \<Rightarrow>
          if deletedIndices = [] then sceneNode
          else
            let sceneNode1 =
                  (case originalPositions sceneNode of
                     None \<Rightarrow> sceneNode
                   | Some original \<Rightarrow>
                       sceneNode
                         \<lparr>position := foldl (restore_point original) (position sceneNode) deletedIndices,
                          deletedPoints := map_option (\<lambda>d. foldl set_delete d deletedIndices)
                                             (deletedPoints sceneNode)\<rparr>)
            in restorePointColors deletedIndices sceneNode1)"

text \<open>\<^verbatim>\<open>undo()\<close>.\<close>

definition undo :: "viewer \<times> selection_manager \<Rightarrow> viewer \<times> selection_manager" where
  "undo st =
     (let v = fst st; sm = snd st
      in if undoStack sm = [] then st
         else
           let action = last (undoStack sm);
               sm1 = sm\<lparr>undoStack := butlast (undoStack sm), redoStack := redoStack sm @ [action]\<rparr>
           in if atype action = ''delete''
              then (for_each_node (undo_in_node action) v, sm1)
              else (v, sm1))"

text \<open>The body of the node loop of \<^verbatim>\<open>redo\<close>.\<close>

definition redo_in_node :: "edit_action \<Rightarrow> string \<Rightarrow> pointsObj \<Rightarrow> pointsObj" where
  "redo_in_node action nodeName sceneNode =
     (case map_get (points action) nodeName of
        None \<Rightarrow> sceneNode
      | Some deletedIndices \<Rightarrow>
          if deletedIndices = [] then sceneNode
          else sceneNode
                 \<lparr>deletedPoints := Some (foldl set_add (deleted_of sceneNode) deletedIndices),
                  position := foldl hide_point (position sceneNode) deletedIndices\<rparr>)"

text \<open>\<^verbatim>\<open>redo()\<close>.\<close>

definition redo :: "viewer \<times> selection_manager \<Rightarrow> viewer \<times> selection_manager" where
  "redo st =
     (let v = fst st; sm = snd st
      in if redoStack sm = [] then st
         else
           let action = last (redoStack sm);
               sm1 = sm\<lparr>redoStack := butlast (redoStack sm), undoStack := undoStack sm @ [action]\<rparr>
           in if atype action = ''delete''
              then (for_each_node (redo_in_node action) v, sm1)
              else (v, sm1))"

text \<open>
  The commands of the edit mode, as the input layer issues them: the brush is moved to
  a position (the end of \<^verbatim>\<open>updateBrushPosition\<close>, whose ray casting is three.js's),
  a paint step, delete, undo, redo.
\<close>

datatype command = MoveBrush "real vec3" | Paint | DeleteSelected nat | Undo | Redo

fun step :: "viewer \<times> selection_manager \<Rightarrow> command \<Rightarrow> viewer \<times> selection_manager" where
  "step st (MoveBrush pos) = (fst st, (snd st)\<lparr>brushPosition := pos\<rparr>)"
| "step st Paint = (fst st, paintSelection (fst st) (snd st))"
| "step st (DeleteSelected now) = deleteSelectedPoints now st"
| "step st Undo = undo st"
| "step st Redo = redo st"

definition run :: "command list \<Rightarrow> viewer \<times> selection_manager \<Rightarrow> viewer \<times> selection_manager" where
  "run commands st = foldl step st commands"

text \<open>The indices selected, or recorded by an action, for a node: none when the map has no entry.\<close>

definition indices_of :: "(string \<times> nat list) list \<Rightarrow> string \<Rightarrow> nat list" where
  "indices_of selected nodeName = (case map_get selected nodeName of None \<Rightarrow> [] | Some s \<Rightarrow> s)"

text \<open>
  The three coordinates and the three colour channels of a point are what was stored for
  it when its node was loaded (\<^verbatim>\<open>originalPositions\<close>, \<^verbatim>\<open>originalColors\<close>): the point has
  not been moved since. A node without stored positions has no such point; a node
  without stored colours is never recoloured.
\<close>

definition point_at_original :: "pointsObj \<Rightarrow> nat \<Rightarrow> bool" where
  "point_at_original node idx =
     ((case originalPositions node of
         None \<Rightarrow> False
       | Some original \<Rightarrow>
           list_all (\<lambda>j. idx * 3 + j < length (position node)
                          \<longrightarrow> arr_get original (idx * 3 + j) = position node ! (idx * 3 + j)) [0, 1, 2])
      \<and> (case originalColors node of
            None \<Rightarrow> True
          | Some original \<Rightarrow>
              list_all (\<lambda>j. idx * 3 + j < length (color node)
                             \<longrightarrow> arr_get original (idx * 3 + j) = color node ! (idx * 3 + j)) [0, 1, 2]))"

definition selection_at_original :: "(string \<times> nat list) list \<Rightarrow> viewer \<Rightarrow> bool" where
  "selection_at_original selected v =
     list_all (\<lambda>(nodeName, node). list_all (point_at_original node) (indices_of selected nodeName))
       (potreeNodes v)"

text \<open>The position and colour arrays of all nodes.\<close>

definition buffers :: "viewer \<Rightarrow> (string \<times> jsnum list \<times> jsnum list) list" where
  "buffers v = map (\<lambda>(nodeName, node). (nodeName, position node, color node)) (potreeNodes v)"

text \<open>The position array and the set of indices marked deleted, of all nodes.\<close>

definition deletions :: "viewer \<Rightarrow> (string \<times> jsnum list \<times> nat set) list" where
  "deletions v = map (\<lambda>(nodeName, node). (nodeName, position node, set (deleted_of node))) (potreeNodes v)"

text \<open>The coordinates of point \<open>idx\<close> that the array holds are the sentinel \<^verbatim>\<open>Infinity\<close>.\<close>

definition sentinel_at :: "jsnum list \<Rightarrow> nat \<Rightarrow> bool" where
  "sentinel_at positions idx =
     list_all (\<lambda>j. idx * 3 + j < length positions \<longrightarrow> positions ! (idx * 3 + j) = PosInfinity) [0, 1, 2]"

text \<open>
  The invariant behind the exclusion of deleted points: every index marked deleted on a
  node has the sentinel for its coordinates in the position array of that node.
\<close>

definition deleted_hidden :: "viewer \<Rightarrow> bool" where
  "deleted_hidden v =
     list_all (\<lambda>(nodeName, node). list_all (sentinel_at (position node)) (deleted_of node))
       (potreeNodes v)"

text \<open>
  The visibility rule of the specification, for the whole node store: a loaded node is
  visible iff its depth is at most \<open>d\<close>.
\<close>

definition shown_up_to :: "int \<Rightarrow> viewer \<Rightarrow> bool" where
  "shown_up_to d v =
     list_all (\<lambda>(nodeName, pointsObj). visible pointsObj = (int (length nodeName) - 1 \<le> d))
       (potreeNodes v)"

text \<open>Two states hold the same nodes with the same arrays; only visibility flags may differ.\<close>

definition same_buffers :: "viewer \<Rightarrow> viewer \<Rightarrow> bool" where
  "same_buffers v v' =
     (map (\<lambda>(nodeName, pointsObj). (nodeName, pointsObj\<lparr>visible := True\<rparr>)) (potreeNodes v')
      = map (\<lambda>(nodeName, pointsObj). (nodeName, pointsObj\<lparr>visible := True\<rparr>)) (potreeNodes v))"

text \<open>
  Nothing was loaded, unloaded, fetched or added to the scene between two states: the
  load state of every node, the requests and the buffers are the same.
\<close>

definition same_loads :: "viewer \<Rightarrow> viewer \<Rightarrow> bool" where
  "same_loads v v' =
     (potreeLoadedNodes v' = potreeLoadedNodes v \<and> potreeLoading v' = potreeLoading v
      \<and> potreeFailedNodes v' = potreeFailedNodes v \<and> requests v' = requests v
      \<and> scene v' = scene v \<and> same_buffers v v')"

section \<open>Example data\<close>

text \<open>
  A brush of radius 1 at the origin, over a point cloud whose local coordinates are
  shifted by (1, 1, 1); a box away from the brush; an octree with a root and two children,
  of which the root and one child have loaded points.
\<close>

definition example_query :: brush_query where
  "example_query =
     \<lparr>brushX = 0, brushY = 0, brushZ = 0, qradius = 1, pcOffset = \<lparr>vx = 1, vy = 1, vz = 1\<rparr>\<rparr>"

definition example_box :: box3 where
  "example_box = \<lparr>bmin = \<lparr>vx = 2, vy = 2, vz = 2\<rparr>, bmax = \<lparr>vx = 3, vy = 3, vz = 3\<rparr>\<rparr>"

definition example_octree :: octree_node where
  "example_octree =
     OctreeNode ''r''
       (Some \<lparr>bmin = \<lparr>vx = - 5, vy = - 5, vz = - 5\<rparr>, bmax = \<lparr>vx = 3, vy = 3, vz = 3\<rparr>\<rparr>)
       [OctreeNode ''r0''
          (Some \<lparr>bmin = \<lparr>vx = - 5, vy = - 5, vz = - 5\<rparr>, bmax = \<lparr>vx = - 1, vy = - 1, vz = - 1\<rparr>\<rparr>) [],
        OctreeNode ''r7''
          (Some \<lparr>bmin = \<lparr>vx = 1, vy = 1, vz = 1\<rparr>, bmax = \<lparr>vx = 3, vy = 3, vz = 3\<rparr>\<rparr>) []]"

definition example_visible :: "string \<rightharpoonup> real vec3 list" where
  "example_visible =
     [''r'' \<mapsto> [\<lparr>vx = 0, vy = 0, vz = 1 / 2\<rparr>], ''r7'' \<mapsto> [\<lparr>vx = 3, vy = 3, vz = 3\<rparr>]]"

text \<open>
  One record with x = 100, y = 0, z = 0 and the colour bytes 255, 0, 0, 0; the same
  record without its last byte; and a buffer of one byte.
\<close>

definition example_record :: "8 word list" where
  "example_record = [100, 0, 0, 0, 0, 0, 0, 0, 0, 0, 0, 0, 255, 0, 0, 0]"

definition example_short_record :: "8 word list" where
  "example_short_record = [100, 0, 0, 0, 0, 0, 0, 0, 0, 0, 0, 0, 255, 0, 0]"

text \<open>
  A viewer that has loaded its metadata (root box [0,0,0]-[8,8,8], scale 0.01) and
  nothing else.
\<close>

definition example_viewer :: viewer where
  "example_viewer =
     \<lparr>potreeMetadata = Some \<lparr>boundingBox = \<lparr>lx = 0, ly = 0, lz = 0, ux = 8, uy = 8, uz = 8\<rparr>,
                              scale = 1 / 100, spacing = 1\<rparr>,
      potreeOffset = Some \<lparr>vx = 0, vy = 0, vz = 0\<rparr>,
      currentLODDepth = 0,
      potreeNodes = [],
      potreeLoadedNodes = {},
      potreeLoading = {},
      potreeFailedNodes = {},
      scene = [],
      requests = [],
      selectionManager = True,
      potreePointCloud = None\<rparr>"

text \<open>
  A viewer at depth 2 with three loaded nodes, at depths 0, 1 and 2; every other node
  name up to depth 2 has failed to load.
\<close>

definition example_loaded_viewer :: viewer where
  "example_loaded_viewer =
     example_viewer
       \<lparr>currentLODDepth := 2,
        potreeNodes :=
          [(''r'', \<lparr>name = ''potree_r'', position = [Num 1, Num 0, Num 0],
                    color = [Num 1, Num 0, Num 0], visible = True,
                    originalPositions = Some [Num 1, Num 0, Num 0],
                    originalColors = Some [Num 1, Num 0, Num 0], deletedPoints = None\<rparr>),
           (''r0'', \<lparr>name = ''potree_r0'', position = [Num 2, Num 1, Num 0],
                    color = [Num 0, Num 1, Num 0], visible = True,
                    originalPositions = Some [Num 2, Num 1, Num 0],
                    originalColors = Some [Num 0, Num 1, Num 0], deletedPoints = None\<rparr>),
           (''r07'', \<lparr>name = ''potree_r07'', position = [],
                    color = [], visible = True,
                    originalPositions = Some [],
                    originalColors = Some [], deletedPoints = None\<rparr>)],
        potreeLoadedNodes := {''r'', ''r0'', ''r07''},
        potreeFailedNodes := set (generateNodes 2 ''r'' 0) - {''r'', ''r0'', ''r07''},
        scene := [''potree_r'', ''potree_r0'', ''potree_r07''],
        requests := [''/potree/data/r/r.bin'']\<rparr>"

text \<open>
  A viewer with one loaded node, the root, holding the one point (1, 0, 0); the selection
  manager is in edit mode with its brush, of radius 0.25, at that point.
\<close>

definition example_point_node :: pointsObj where
  "example_point_node =
     \<lparr>name = ''potree_r'', position = [Num 1, Num 0, Num 0],
      color = [Num 1, Num 0, Num 0], visible = True,
      originalPositions = Some [Num 1, Num 0, Num 0],
      originalColors = Some [Num 1, Num 0, Num 0], deletedPoints = None\<rparr>"

definition example_edit_state :: "viewer \<times> selection_manager" where
  "example_edit_state =
     (example_viewer\<lparr>potreeNodes := [(''r'', example_point_node)], potreeLoadedNodes := {''r''},
                     scene := [''potree_r''], requests := [''/potree/data/r/r.bin'']\<rparr>,
      new_SelectionManager\<lparr>editModeActive := True, brushPosition := \<lparr>vx = 1, vy = 0, vz = 0\<rparr>\<rparr>)"

text \<open>
  The action that deleting the point of the example records, and the state of the example
  after that point has been deleted, with that action on top of an undo stack.
\<close>

definition example_action :: edit_action where
  "example_action = \<lparr>atype = ''delete'', points = [(''r'', [0])], timestamp = 7\<rparr>"

definition example_deleted_state :: "edit_action list \<Rightarrow> viewer \<times> selection_manager" where
  "example_deleted_state us =
     (fst example_edit_state
        \<lparr>potreeNodes := [(''r'', example_point_node
                                  \<lparr>position := [PosInfinity, PosInfinity, PosInfinity],
                                   deletedPoints := Some [0]\<rparr>)]\<rparr>,
      snd example_edit_state\<lparr>undoStack := us @ [example_action]\<rparr>)"

section \<open>Verification: octree addressing\<close>

lemma parseInt_digit_char: "d < 10 \<Longrightarrow> parseInt (digit_char d) = Some (int d)"
  by (simp add: parseInt_def digit_char_def)

lemma int_and_push_bit: "(int d AND push_bit k 1 \<noteq> 0) = bit d k"
  by (metis bit_iff_and_push_bit_not_eq_0 bit_of_nat_iff_bit)

lemma octant_and_nat:
  shows "octant_and (Some (int d)) 1 = bit d 0"
    and "octant_and (Some (int d)) 2 = bit d 1"
    and "octant_and (Some (int d)) 4 = bit d 2"
  using int_and_push_bit[of d 0] int_and_push_bit[of d 1] int_and_push_bit[of d 2]
  by (simp_all add: octant_and_def)

lemma subdivide_Some:
  "parseInt c = Some (int d) \<Longrightarrow> subdivide b c = octant_box b d"
  by (simp add: subdivide_def octant_box_def keep_half_def octant_and_nat Let_def)

lemma subdivide_None:
  "parseInt c = None \<Longrightarrow> subdivide b c = octant_box b 0"
  by (simp add: subdivide_def octant_box_def keep_half_def octant_and_def Let_def)

lemma octant_box_mod8: "octant_box b (d mod 8) = octant_box b d"
proof -
  have m: "d mod 8 = take_bit 3 d"
    by (simp add: take_bit_eq_mod)
  have "bit (d mod 8) k = bit d k" if "k < 3" for k
    unfolding m using that by (simp add: bit_take_bit_iff)
  from this[of 0] this[of 1] this[of 2] show ?thesis
    by (simp add: octant_box_def)
qed

lemma parseInt_nonneg: "parseInt c = Some n \<Longrightarrow> 0 \<le> n"
  by (auto simp: parseInt_def split: if_splits)

lemma subdivide_octant_of_char: "subdivide b c = octant_box b (octant_of_char c)"
proof (cases "parseInt c")
  case None
  then show ?thesis by (simp add: subdivide_None octant_of_char_def)
next
  case (Some n)
  then have "parseInt c = Some (int (nat n))"
    using parseInt_nonneg by fastforce
  then show ?thesis
    using Some by (simp add: subdivide_Some octant_of_char_def octant_box_mod8)
qed

lemma traverse_octants_foldl:
  "traverse_octants b cs = foldl octant_box b (map octant_of_char cs)"
  by (induction cs arbitrary: b) (simp_all add: subdivide_octant_of_char)

lemma octant_of_digit_char: "d < 8 \<Longrightarrow> octant_of_char (digit_char d) = d"
  by (simp add: octant_of_char_def parseInt_digit_char)

lemma map_octant_of_digit_char:
  "\<forall>d\<in>set path. d < 8 \<Longrightarrow> map octant_of_char (map digit_char path) = path"
  by (induction path) (simp_all add: octant_of_digit_char)

lemma node_name_not_root: "path \<noteq> [] \<Longrightarrow> node_name path \<noteq> ''r''"
  by (simp add: node_name_def)

lemma getNodeBoundingBox_Some:
  "getNodeBoundingBox (Some md) nodeName =
     Inr (boundsOf (map octant_of_char (drop 1 nodeName)) (boundingBox md))"
  by (simp add: getNodeBoundingBox_def boundsOf_def traverse_octants_foldl Let_def)

text \<open>
  C1. Octree addressing is correct. For every root box, \<^verbatim>\<open>getNodeBoundingBox\<close>
  returns the root box unchanged for the root path \<^verbatim>\<open>r\<close>; for every path of octant
  digits 0 to 7 it returns the box the specification describes: the digits are processed
  root to leaf, each halving the current box at its midpoint on each axis and keeping the
  upper X half iff bit 0 is set, the upper Y half iff bit 1 is set, the upper Z half iff
  bit 2 is set. For the root box [0,0,0]-[8,8,8], the path 1 gives [4,0,0]-[8,4,4] and the
  path 1,2 gives [4,2,0]-[6,4,2].
\<close>

theorem getNodeBoundingBox_addressing:
  "getNodeBoundingBox (Some md) ''r'' = Inr (boundingBox md)
   \<and> (\<forall>path. (\<forall>d\<in>set path. d < 8) \<longrightarrow>
         getNodeBoundingBox (Some md) (node_name path) = Inr (boundsOf path (boundingBox md)))
   \<and> (boundingBox md = \<lparr>lx = 0, ly = 0, lz = 0, ux = 8, uy = 8, uz = 8\<rparr> \<longrightarrow>
         getNodeBoundingBox (Some md) ''r1'' = Inr \<lparr>lx = 4, ly = 0, lz = 0, ux = 8, uy = 4, uz = 4\<rparr>
       \<and> getNodeBoundingBox (Some md) ''r12'' = Inr \<lparr>lx = 4, ly = 2, lz = 0, ux = 6, uy = 4, uz = 2\<rparr>)"
proof (intro conjI allI impI)
  show "getNodeBoundingBox (Some md) ''r'' = Inr (boundingBox md)"
    by (simp add: getNodeBoundingBox_def)
next
  fix path :: "nat list"
  assume "\<forall>d\<in>set path. d < 8"
  then show "getNodeBoundingBox (Some md) (node_name path) = Inr (boundsOf path (boundingBox md))"
    using map_octant_of_digit_char[of path]
    by (simp add: getNodeBoundingBox_Some node_name_def del: map_map)
next
  assume "boundingBox md = \<lparr>lx = 0, ly = 0, lz = 0, ux = 8, uy = 8, uz = 8\<rparr>"
  then show "getNodeBoundingBox (Some md) ''r1'' = Inr \<lparr>lx = 4, ly = 0, lz = 0, ux = 8, uy = 4, uz = 4\<rparr>"
    by (simp add: getNodeBoundingBox_def subdivide_def parseInt_def octant_and_def)
next
  assume "boundingBox md = \<lparr>lx = 0, ly = 0, lz = 0, ux = 8, uy = 8, uz = 8\<rparr>"
  then show "getNodeBoundingBox (Some md) ''r12'' = Inr \<lparr>lx = 4, ly = 2, lz = 0, ux = 6, uy = 4, uz = 2\<rparr>"
    by (simp add: getNodeBoundingBox_def subdivide_def parseInt_def octant_and_def)
qed

theorem getNodeBoundingBox_addressing_witness:
  "list_all (\<lambda>d. d < 8) [1, 2 :: nat]
   \<and> boundingBox \<lparr>boundingBox = \<lparr>lx = 0, ly = 0, lz = 0, ux = 8, uy = 8, uz = 8\<rparr>,
                    scale = 1 / 100, spacing = 1\<rparr>
       = \<lparr>lx = 0, ly = 0, lz = 0, ux = 8, uy = 8, uz = 8\<rparr>
   \<and> getNodeBoundingBox
        (Some \<lparr>boundingBox = \<lparr>lx = 0, ly = 0, lz = 0, ux = 8, uy = 8, uz = 8\<rparr>,
                scale = 1 / 100, spacing = 1\<rparr>) (node_name [1, 2])
       = Inr (boundsOf [1, 2] \<lparr>lx = 0, ly = 0, lz = 0, ux = 8, uy = 8, uz = 8\<rparr>)
   \<and> getNodeBoundingBox
        (Some \<lparr>boundingBox = \<lparr>lx = 0, ly = 0, lz = 0, ux = 8, uy = 8, uz = 8\<rparr>,
                scale = 1 / 100, spacing = 1\<rparr>) ''r12''
       = Inr \<lparr>lx = 4, ly = 2, lz = 0, ux = 6, uy = 4, uz = 2\<rparr>"
  using getNodeBoundingBox_addressing
    [of "\<lparr>boundingBox = \<lparr>lx = 0, ly = 0, lz = 0, ux = 8, uy = 8, uz = 8\<rparr>,
          scale = 1 / 100, spacing = 1\<rparr>"]
  by simp

text \<open>
  C8, as the specification states it: a path with a digit outside 0 to 7 makes the
  addressing function fail with an InvalidNodePath error. The code has no such check.
  At the root box [0,0,0]-[8,8,8] the name \<^verbatim>\<open>r8\<close> is answered with the box of octant 0,
  and \<^verbatim>\<open>r9x\<close> with the box of octant 1 followed by octant 0.
\<close>

theorem getNodeBoundingBox_invalid_digit_counterexample:
  "getNodeBoundingBox
     (Some \<lparr>boundingBox = \<lparr>lx = 0, ly = 0, lz = 0, ux = 8, uy = 8, uz = 8\<rparr>,
             scale = 1 / 100, spacing = 1\<rparr>) ''r8''
     = Inr \<lparr>lx = 0, ly = 0, lz = 0, ux = 4, uy = 4, uz = 4\<rparr>
   \<and> getNodeBoundingBox
     (Some \<lparr>boundingBox = \<lparr>lx = 0, ly = 0, lz = 0, ux = 8, uy = 8, uz = 8\<rparr>,
             scale = 1 / 100, spacing = 1\<rparr>) ''r9x''
     = Inr \<lparr>lx = 4, ly = 0, lz = 0, ux = 6, uy = 2, uz = 2\<rparr>"
  by (simp add: getNodeBoundingBox_def subdivide_def parseInt_def octant_and_def)

text \<open>
  C8, amended. Once the metadata is loaded, \<^verbatim>\<open>getNodeBoundingBox\<close> returns a box for
  every node name and never fails: a path character outside 0 to 7 is not rejected, it
  acts as the octant given by the low three bits of its \<^verbatim>\<open>parseInt\<close> value, with NaN
  counting as 0 (so 8 and every non-digit act as octant 0, and 9 as octant 1). The result
  depends on the root box and the name only, so no call affects the box of another node.
\<close>

theorem getNodeBoundingBox_unchecked:
  "getNodeBoundingBox (Some md) nodeName =
     Inr (boundsOf (map octant_of_char (drop 1 nodeName)) (boundingBox md))
   \<and> (parseInt c = None \<or> parseInt c = Some 8 \<longrightarrow> octant_of_char c = 0)
   \<and> (parseInt c = Some 9 \<longrightarrow> octant_of_char c = 1)"
  by (auto simp: getNodeBoundingBox_Some octant_of_char_def)

theorem getNodeBoundingBox_unchecked_witness:
  "parseInt CHR ''x'' = None \<and> octant_of_char CHR ''x'' = 0
   \<and> parseInt CHR ''9'' = Some 9 \<and> octant_of_char CHR ''9'' = 1
   \<and> getNodeBoundingBox
        (Some \<lparr>boundingBox = \<lparr>lx = 0, ly = 0, lz = 0, ux = 8, uy = 8, uz = 8\<rparr>,
                scale = 1 / 100, spacing = 1\<rparr>) ''r9x''
      = Inr (boundsOf [1, 0] \<lparr>lx = 0, ly = 0, lz = 0, ux = 8, uy = 8, uz = 8\<rparr>)"
  using getNodeBoundingBox_unchecked
    [of "\<lparr>boundingBox = \<lparr>lx = 0, ly = 0, lz = 0, ux = 8, uy = 8, uz = 8\<rparr>,
          scale = 1 / 100, spacing = 1\<rparr>" "''r9x''" "CHR ''x''"]
    getNodeBoundingBox_unchecked
    [of "\<lparr>boundingBox = \<lparr>lx = 0, ly = 0, lz = 0, ux = 8, uy = 8, uz = 8\<rparr>,
          scale = 1 / 100, spacing = 1\<rparr>" "''r9x''" "CHR ''9''"]
  by (simp add: parseInt_def octant_of_char_def)

section \<open>Verification: the brush radius\<close>

lemma updateBrushSize_range:
  "0.05 \<le> brushRadius (updateBrushSize sm newRadius) \<and> brushRadius (updateBrushSize sm newRadius) \<le> 5"
  by (simp add: updateBrushSize_def)

lemma onWheel_range:
  "0.05 \<le> brushRadius sm \<and> brushRadius sm \<le> 5
   \<Longrightarrow> 0.05 \<le> brushRadius (onWheel sm deltaY) \<and> brushRadius (onWheel sm deltaY) \<le> 5"
  using updateBrushSize_range by (simp add: onWheel_def Let_def)

lemma onWheel_foldl_range:
  "0.05 \<le> brushRadius sm \<and> brushRadius sm \<le> 5
   \<Longrightarrow> 0.05 \<le> brushRadius (foldl onWheel sm deltas) \<and> brushRadius (foldl onWheel sm deltas) \<le> 5"
proof (induction deltas arbitrary: sm)
  case Nil
  then show ?case by simp
next
  case (Cons d ds)
  from Cons.prems have "0.05 \<le> brushRadius (onWheel sm d) \<and> brushRadius (onWheel sm d) \<le> 5"
    by (rule onWheel_range)
  then show ?case using Cons.IH by simp
qed

text \<open>
  C10. For every finite argument, \<^verbatim>\<open>updateBrushSize\<close> leaves \<^verbatim>\<open>brushRadius\<close> in
  the closed interval [0.05, 5.0]. The constructor starts it at 0.25, and a wheel event
  either leaves it alone (outside edit mode) or passes 0.9 or 1.1 times the current radius
  to \<^verbatim>\<open>updateBrushSize\<close>: so every wheel event, and every sequence of wheel events,
  keeps a radius that is in the interval inside it.
\<close>

theorem brushRadius_range:
  "0.05 \<le> brushRadius (updateBrushSize sm newRadius)
   \<and> brushRadius (updateBrushSize sm newRadius) \<le> 5.0
   \<and> brushRadius new_SelectionManager = 0.25
   \<and> (0.05 \<le> brushRadius sm \<and> brushRadius sm \<le> 5.0 \<longrightarrow>
        0.05 \<le> brushRadius (onWheel sm deltaY) \<and> brushRadius (onWheel sm deltaY) \<le> 5.0
        \<and> 0.05 \<le> brushRadius (foldl onWheel sm deltas)
        \<and> brushRadius (foldl onWheel sm deltas) \<le> 5.0)"
  using updateBrushSize_range[of sm newRadius] onWheel_range[of sm deltaY]
    onWheel_foldl_range[of sm deltas]
  by (simp add: new_SelectionManager_def)

theorem brushRadius_range_witness:
  "brushRadius (updateBrushSize (new_SelectionManager\<lparr>editModeActive := True\<rparr>) 100) = 5
   \<and> 0.05 \<le> brushRadius (new_SelectionManager\<lparr>editModeActive := True\<rparr>)
   \<and> brushRadius (new_SelectionManager\<lparr>editModeActive := True\<rparr>) \<le> 5
   \<and> brushRadius (onWheel (new_SelectionManager\<lparr>editModeActive := True\<rparr>) 1) = 0.225
   \<and> 0.05 \<le> brushRadius (foldl onWheel (new_SelectionManager\<lparr>editModeActive := True\<rparr>) [1, - 1, - 1])
   \<and> brushRadius (foldl onWheel (new_SelectionManager\<lparr>editModeActive := True\<rparr>) [1, - 1, - 1]) \<le> 5"
  using brushRadius_range[of "new_SelectionManager\<lparr>editModeActive := True\<rparr>" 100 1
      "[1, - 1, - 1]"]
  by (simp add: new_SelectionManager_def updateBrushSize_def onWheel_def)

section \<open>Verification: pruning\<close>

lemma containsPoint_finite:
  "containsPoint s (finite_point p) =
     ((vx p - vx (center s))^2 + (vy p - vy (center s))^2 + (vz p - vz (center s))^2 \<le> (radius s)^2)"
  by (simp add: containsPoint_def distanceToSquared_def finite_point_def jsub_def power2_eq_square)

lemma closest_le:
  fixes p c lo hi :: real
  assumes "lo \<le> p" "p \<le> hi"
  shows "(max lo (min c hi) - c)^2 \<le> (p - c)^2"
proof -
  have "\<bar>max lo (min c hi) - c\<bar> \<le> \<bar>p - c\<bar>"
    using assms by (auto simp: max_def min_def abs_if)
  then show ?thesis by (simp only: abs_le_square_iff)
qed

lemma pruned_xy:
  assumes "\<not> bboxIntersectsQuery q (Some b)" "inside_box b p" "0 \<le> qradius q"
  shows "(qradius q)^2 < (vx p - brushX q)^2 + (vy p - brushY q)^2
         \<or> (qradius q < vz p - brushZ q)"
proof -
  let ?cx = "max (vx (bmin b)) (min (brushX q) (vx (bmax b)))"
  let ?cy = "max (vy (bmin b)) (min (brushY q) (vy (bmax b)))"
  from assms(1) consider
    (xy) "(?cx - brushX q)^2 + (?cy - brushY q)^2 > qradius q * qradius q"
    | (z) "vz (bmin b) > brushZ q + qradius q"
    by (auto simp: bboxIntersectsQuery_def Let_def split: if_splits)
  then show ?thesis
  proof cases
    case xy
    have "(?cx - brushX q)^2 \<le> (vx p - brushX q)^2" "(?cy - brushY q)^2 \<le> (vy p - brushY q)^2"
      using assms(2) by (simp_all add: inside_box_def closest_le)
    with xy show ?thesis by (simp add: power2_eq_square)
  next
    case z
    then show ?thesis using assms(2) by (simp add: inside_box_def)
  qed
qed

lemma pruned_not_contained:
  assumes "\<not> bboxIntersectsQuery q (Some b)" "inside_box b p" "0 \<le> qradius q"
  shows "\<not> containsPoint (query_sphere q) (finite_point p)"
proof -
  have sq: "0 \<le> (vx p - brushX q)^2" "0 \<le> (vy p - brushY q)^2" "0 \<le> (vz p - brushZ q)^2"
    by simp_all
  from pruned_xy[OF assms]
  have "(qradius q)^2 < (vx p - brushX q)^2 + (vy p - brushY q)^2 + (vz p - brushZ q)^2"
  proof
    assume "(qradius q)^2 < (vx p - brushX q)^2 + (vy p - brushY q)^2"
    with sq show ?thesis by linarith
  next
    assume "qradius q < vz p - brushZ q"
    then have "(qradius q)^2 < (vz p - brushZ q)^2"
      using assms(3) by (simp add: power_strict_mono)
    with sq show ?thesis by linarith
  qed
  then show ?thesis
    by (simp add: containsPoint_finite query_sphere_def)
qed

lemma pruned_Neither:
  assumes "\<not> bboxIntersectsQuery q (Some b)" "inside_box b p" "0 \<le> qradius q"
  shows "classify_point q p = Neither"
proof -
  have sq: "0 \<le> (vx p - brushX q)^2" "0 \<le> (vy p - brushY q)^2" "0 \<le> (vz p - brushZ q)^2"
    by simp_all
  from pruned_xy[OF assms] show ?thesis
  proof
    assume "(qradius q)^2 < (vx p - brushX q)^2 + (vy p - brushY q)^2"
    then show ?thesis by (simp add: classify_point_def power2_eq_square Let_def)
  next
    assume a: "qradius q < vz p - brushZ q"
    then have "(qradius q)^2 < (vz p - brushZ q)^2"
      using assms(3) by (simp add: power_strict_mono)
    with sq have "\<not> (vx p - brushX q)^2 + (vy p - brushY q)^2 + (vz p - brushZ q)^2 < (qradius q)^2"
      by linarith
    moreover have "\<not> vz p < brushZ q" using a assms(3) by simp
    ultimately show ?thesis by (simp add: classify_point_def Let_def power2_eq_square)
  qed
qed

lemma processNodePoints_Neither:
  "list_all (\<lambda>p. classify_point q p = Neither) pts \<Longrightarrow> processNodePoints q pts acc = acc"
  unfolding processNodePoints_def
  by (induction pts arbitrary: acc) (auto split: prod.splits)

lemma fold_id: "(\<And>x a. x \<in> set xs \<Longrightarrow> f x a = a) \<Longrightarrow> fold f xs acc = acc"
  by (induction xs arbitrary: acc) simp_all

lemma traverseAll_Neither:
  "list_all (\<lambda>p. classify_point q p = Neither) (subtree_points vis t) \<Longrightarrow> traverseAll q vis t acc = acc"
proof (induction q vis t acc rule: traverseAll.induct)
  case (1 q vis nodeName localBbox children acc)
  have own: "(case vis nodeName of Some worldPts \<Rightarrow> processNodePoints q worldPts acc | None \<Rightarrow> acc) = acc"
    using "1.prems" by (auto simp: processNodePoints_Neither split: option.splits)
  have "fold (traverseAll q vis) children acc = acc"
  proof (rule fold_id)
    fix c a assume c: "c \<in> set children"
    have "list_all (\<lambda>p. classify_point q p = Neither) (subtree_points vis c)"
      using "1.prems" c by (auto simp: list_all_iff)
    then show "traverseAll q vis c a = a"
      using "1.IH"[OF refl c] by simp
  qed
  then show ?case using own by simp
qed

lemma fold_eq: "(\<And>x a. x \<in> set xs \<Longrightarrow> f x a = g x a) \<Longrightarrow> fold f xs acc = fold g xs acc"
  by (induction xs arbitrary: acc) simp_all

lemma traverse_prune_eq:
  "0 \<le> qradius q \<Longrightarrow> boxes_enclose q vis t \<Longrightarrow> traverseOctree q vis t acc = traverseAll q vis t acc"
proof (induction q vis t acc rule: traverseOctree.induct)
  case (1 q vis nodeName localBbox children acc)
  show ?case
  proof (cases "bboxIntersectsQuery q (toWorldBbox q localBbox)")
    case False
    then obtain wb where wb: "toWorldBbox q localBbox = Some wb"
      by (cases "toWorldBbox q localBbox") (simp_all add: bboxIntersectsQuery_def)
    have "list_all (inside_box wb) (subtree_points vis (OctreeNode nodeName localBbox children))"
      using "1.prems"(2) wb by simp
    then have "list_all (\<lambda>p. classify_point q p = Neither)
                 (subtree_points vis (OctreeNode nodeName localBbox children))"
      using False wb "1.prems"(1) pruned_Neither[of q wb]
      by (auto simp: list_all_iff)
    then have "traverseAll q vis (OctreeNode nodeName localBbox children) acc = acc"
      by (rule traverseAll_Neither)
    then show ?thesis using False by simp
  next
    case True
    have "fold (traverseOctree q vis) children a = fold (traverseAll q vis) children a" for a
    proof (rule fold_eq)
      fix c a' assume c: "c \<in> set children"
      have "boxes_enclose q vis c" using "1.prems"(2) c by (auto simp: list_all_iff)
      then show "traverseOctree q vis c a' = traverseAll q vis c a'"
        using "1.IH" True c "1.prems"(1) by simp
    qed
    then show ?thesis using True by simp
  qed
qed

text \<open>
  C3. Pruning is sound. For every axis-aligned box and every brush sphere with centre
  (\<^verbatim>\<open>brushX, brushY, brushZ\<close>) and a radius that is not negative (every brush radius is
  at least 0.05): if \<^verbatim>\<open>bboxIntersectsQuery\<close> returns false for the box, then no point
  inside the box satisfies the sphere containment test (squared distance to the centre at
  most the radius squared), and \<^verbatim>\<open>processNodePoints\<close> would put no such point on its
  highlight or shadow list. So the traversal that skips every pruned node with its
  subtree collects exactly what the traversal of the whole octree collects, as long as
  each box encloses the points of its subtree.
\<close>

theorem bboxIntersectsQuery_sound:
  assumes "0 \<le> qradius q"
  shows "(\<not> bboxIntersectsQuery q (Some b) \<and> inside_box b p \<longrightarrow>
            \<not> containsPoint (query_sphere q) (finite_point p) \<and> classify_point q p = Neither)
         \<and> (boxes_enclose q visibleNodesMap t \<longrightarrow>
            traverseOctree q visibleNodesMap t acc = traverseAll q visibleNodesMap t acc)"
  using assms pruned_not_contained[of q b p] pruned_Neither[of q b p]
    traverse_prune_eq[of q visibleNodesMap t acc]
  by blast

theorem bboxIntersectsQuery_sound_witness:
  "0 \<le> qradius example_query
   \<and> \<not> bboxIntersectsQuery example_query (Some example_box)
   \<and> inside_box example_box \<lparr>vx = 2, vy = 5 / 2, vz = 3\<rparr>
   \<and> \<not> containsPoint (query_sphere example_query) (finite_point \<lparr>vx = 2, vy = 5 / 2, vz = 3\<rparr>)
   \<and> classify_point example_query \<lparr>vx = 2, vy = 5 / 2, vz = 3\<rparr> = Neither
   \<and> boxes_enclose example_query example_visible example_octree
   \<and> traverseOctree example_query example_visible example_octree ([], [])
       = traverseAll example_query example_visible example_octree ([], [])
   \<and> traverseAll example_query example_visible example_octree ([], [])
       = ([\<lparr>vx = 0, vy = 0, vz = 1 / 2\<rparr>], [])"
proof -
  have r: "0 \<le> qradius example_query"
    by (simp add: example_query_def)
  have b: "\<not> bboxIntersectsQuery example_query (Some example_box)"
    by (simp add: example_query_def example_box_def bboxIntersectsQuery_def)
  have i: "inside_box example_box \<lparr>vx = 2, vy = 5 / 2, vz = 3\<rparr>"
    by (simp add: example_box_def inside_box_def)
  have e: "boxes_enclose example_query example_visible example_octree"
    by (simp add: example_query_def example_octree_def example_visible_def toWorldBbox_def
        inside_box_def)
  have a: "traverseAll example_query example_visible example_octree ([], [])
       = ([\<lparr>vx = 0, vy = 0, vz = 1 / 2\<rparr>], [])"
    by (simp add: example_query_def example_octree_def example_visible_def
        processNodePoints_def classify_point_def)
  show ?thesis
    using bboxIntersectsQuery_sound[OF r, of example_box "\<lparr>vx = 2, vy = 5 / 2, vz = 3\<rparr>"
        example_visible example_octree "([], [])"] r b i e a
    by simp
qed

section \<open>Verification: decoding point records\<close>

lemma read_point_ok:
  assumes "i * 16 + 15 \<le> length view"
  shows "read_point view scl bb potreeOff i
         = Inr (record_position view bb scl (offset_or_zero potreeOff) i, record_color view i)"
  using assms
  by (cases potreeOff)
     (simp_all add: read_point_def and_then_def getInt32_def getUint8_def record_position_def
        record_color_def offset_or_zero_def Let_def ac_simps)

lemma read_point_fail:
  assumes "length view < i * 16 + 15"
  shows "read_point view scl bb potreeOff i = Inl RangeError"
  using assms
  by (simp add: read_point_def and_then_def getInt32_def getUint8_def Let_def)

lemma read_points_ok:
  assumes "\<forall>j. i \<le> j \<and> 16 * j < length view \<longrightarrow> 16 * j + 15 \<le> length view"
    and "i \<le> m" and "16 * m \<ge> length view" and "m = 0 \<or> 16 * (m - 1) < length view"
  shows "read_points view scl bb potreeOff i vertices colors
         = Inr (vertices @ concat (map (record_position view bb scl (offset_or_zero potreeOff)) [i..<m]),
                colors @ concat (map (record_color view) [i..<m]))"
  using assms
proof (induction view scl bb potreeOff i vertices colors rule: read_points.induct)
  case (1 view scl bb potreeOff i vertices colors)
  show ?case
  proof (cases "16 * i < length view")
    case True
    then have ok: "i * 16 + 15 \<le> length view" using "1.prems"(1) by (simp add: mult.commute)
    have lt: "i < m" using True "1.prems"(3) by linarith
    have cond: "real i < real (length view) / 16" using True by simp
    have IH: "read_points view scl bb potreeOff (i + 1)
               (vertices @ record_position view bb scl (offset_or_zero potreeOff) i)
               (colors @ record_color view i)
          = Inr ((vertices @ record_position view bb scl (offset_or_zero potreeOff) i)
                   @ concat (map (record_position view bb scl (offset_or_zero potreeOff)) [i + 1..<m]),
                 (colors @ record_color view i) @ concat (map (record_color view) [i + 1..<m]))"
      apply (rule "1.IH"[OF cond read_point_ok[OF ok] refl])
      using "1.prems" lt by auto
    have up: "[i..<m] = i # [i + 1..<m]" using lt by (simp add: upt_conv_Cons)
    show ?thesis
      apply (subst read_points.simps)
      using cond IH by (simp add: read_point_ok[OF ok] up)
  next
    case False
    then have "m \<le> i" using "1.prems"(4) by (cases m) auto
    then have e: "[i..<m] = []" by simp
    have c: "\<not> real i < real (length view) / 16" using False by simp
    show ?thesis
      by (subst read_points.simps) (simp only: c e if_False list.map concat.simps append_Nil2)
  qed
qed

lemma read_points_fail:
  assumes "i \<le> k" "16 * k < length view" "length view < 16 * k + 15"
  shows "read_points view scl bb potreeOff i vertices colors = Inl RangeError"
  using assms
proof (induction view scl bb potreeOff i vertices colors rule: read_points.induct)
  case (1 view scl bb potreeOff i vertices colors)
  have cond: "real i < real (length view) / 16" using "1.prems" by simp
  show ?case
  proof (cases "i = k")
    case True
    then have "read_point view scl bb potreeOff i = Inl RangeError"
      using "1.prems" by (simp add: read_point_fail mult.commute)
    then show ?thesis using cond by (subst read_points.simps) simp
  next
    case False
    then have lt: "i < k" using "1.prems"(1) by simp
    then have ok: "i * 16 + 15 \<le> length view" using "1.prems"(2) by simp
    have "read_points view scl bb potreeOff (i + 1)
               (vertices @ record_position view bb scl (offset_or_zero potreeOff) i)
               (colors @ record_color view i) = Inl RangeError"
      apply (rule "1.IH"[OF cond read_point_ok[OF ok] refl])
      using "1.prems" lt by auto
    then show ?thesis using cond
      by (subst read_points.simps) (simp add: read_point_ok[OF ok])
  qed
qed

lemma length_concat_map3:
  "(\<And>j. length (f j) = 3) \<Longrightarrow> length (concat (map f [0..<n])) = 3 * n"
  by (induction n) simp_all

lemma nth_concat_map3:
  assumes "\<And>j. length (f j) = 3" "i < n" "k < 3"
  shows "concat (map f [0..<n]) ! (3 * i + k) = f i ! k"
  using assms(2)
proof (induction n)
  case 0
  then show ?case by simp
next
  case (Suc n)
  have len: "length (concat (map f [0..<n])) = 3 * n"
    using assms(1) by (rule length_concat_map3)
  show ?case
  proof (cases "i < n")
    case True
    then have "3 * i + k < 3 * n" using assms(3) by simp
    then show ?thesis using Suc.IH[OF True] len by (simp add: nth_append)
  next
    case False
    then have "i = n" using Suc.prems by simp
    then show ?thesis using len by (simp add: nth_append)
  qed
qed

lemma length_record_position [simp]: "length (record_position buffer nodeBox scl off i) = 3"
  by (simp add: record_position_def)

lemma length_record_color [simp]: "length (record_color buffer i) = 3"
  by (simp add: record_color_def)

lemma decode_whole:
  assumes "length buffer = n * 16"
  shows "decode buffer nodeBox scl worldOffset
         = Inr (concat (map (record_position buffer nodeBox scl (offset_or_zero worldOffset)) [0..<n]),
                concat (map (record_color buffer) [0..<n]))"
proof -
  have "read_points buffer scl nodeBox worldOffset 0 [] []
        = Inr ([] @ concat (map (record_position buffer nodeBox scl (offset_or_zero worldOffset)) [0..<n]),
               [] @ concat (map (record_color buffer) [0..<n]))"
    by (rule read_points_ok) (use assms in \<open>auto simp: Suc_le_eq\<close>)
  then show ?thesis by (simp add: decode_def)
qed

lemma decode_truncated:
  assumes "0 < length buffer mod 16" "length buffer mod 16 < 15"
  shows "decode buffer nodeBox scl worldOffset = Inl RangeError"
proof -
  let ?k = "length buffer div 16"
  have "length buffer = 16 * ?k + length buffer mod 16" by simp
  then have "16 * ?k < length buffer" "length buffer < 16 * ?k + 15"
    using assms by linarith+
  then show ?thesis
    unfolding decode_def by (intro read_points_fail[of 0 ?k]) simp_all
qed

lemma decode_one_byte_short:
  assumes "length buffer mod 16 = 15"
  shows "decode buffer nodeBox scl worldOffset
         = Inr (concat (map (record_position buffer nodeBox scl (offset_or_zero worldOffset))
                          [0..<length buffer div 16 + 1]),
                concat (map (record_color buffer) [0..<length buffer div 16 + 1]))"
proof -
  define k where "k = length buffer div 16"
  have l: "length buffer = 16 * k + 15"
    unfolding k_def using assms by (metis mult_div_mod_eq)
  have "read_points buffer scl nodeBox worldOffset 0 [] []
        = Inr ([] @ concat (map (record_position buffer nodeBox scl (offset_or_zero worldOffset)) [0..<k + 1]),
               [] @ concat (map (record_color buffer) [0..<k + 1]))"
  proof (rule read_points_ok)
    show "\<forall>j. 0 \<le> j \<and> 16 * j < length buffer \<longrightarrow> 16 * j + 15 \<le> length buffer"
      unfolding l by presburger
    show "0 \<le> k + 1" by simp
    show "length buffer \<le> 16 * (k + 1)" unfolding l by simp
    show "k + 1 = 0 \<or> 16 * (k + 1 - 1) < length buffer" unfolding l by simp
  qed
  then show ?thesis by (simp add: decode_def k_def)
qed

text \<open>
  C2. Point record decoding is correct. For every byte buffer of length N * 16, every node
  box, scale and world offset, decoding yields exactly N positions and N colours, stored
  as 3 * N numbers each: position \<open>i\<close> is, per axis, the little-endian signed 32-bit
  integer of record \<open>i\<close> times the scale, plus the minimum of the node box, plus the world
  offset (plus nothing when no offset is set); colour \<open>i\<close> is each of the first three
  trailing bytes divided by 255, the fourth byte being ignored. The record
  (x = 100, y = 0, z = 0, r = 255, g = 0, b = 0, a = 0) with scale 0.01, node box minimum
  (0, 0, 0) and world offset (0, 0, 0) decodes to the position (1, 0, 0) and the colour
  (1, 0, 0).
\<close>

theorem decode_records:
  assumes "length buffer = n * 16"
  shows "decode buffer nodeBox scl (Some worldOffset)
           = Inr (concat (map (record_position buffer nodeBox scl worldOffset) [0..<n]),
                  concat (map (record_color buffer) [0..<n]))
         \<and> decode buffer nodeBox scl None
           = Inr (concat (map (record_position buffer nodeBox scl \<lparr>vx = 0, vy = 0, vz = 0\<rparr>) [0..<n]),
                  concat (map (record_color buffer) [0..<n]))
         \<and> length (concat (map (record_position buffer nodeBox scl worldOffset) [0..<n])) = 3 * n
         \<and> length (concat (map (record_color buffer) [0..<n])) = 3 * n
         \<and> (\<forall>i<n. \<forall>k<3.
               concat (map (record_position buffer nodeBox scl worldOffset) [0..<n]) ! (3 * i + k)
                 = record_position buffer nodeBox scl worldOffset i ! k
               \<and> concat (map (record_color buffer) [0..<n]) ! (3 * i + k)
                 = record_color buffer i ! k)
         \<and> (lx nodeBox = 0 \<and> ly nodeBox = 0 \<and> lz nodeBox = 0 \<longrightarrow>
               decode example_record nodeBox 0.01 (Some \<lparr>vx = 0, vy = 0, vz = 0\<rparr>)
                 = Inr ([1.0, 0.0, 0.0], [1.0, 0.0, 0.0]))"
proof -
  have ex: "length example_record = 1 * 16"
    by (simp add: example_record_def)
  have "decode example_record nodeBox 0.01 (Some \<lparr>vx = 0, vy = 0, vz = 0\<rparr>)
          = Inr ([1.0, 0.0, 0.0], [1.0, 0.0, 0.0])"
    if "lx nodeBox = 0 \<and> ly nodeBox = 0 \<and> lz nodeBox = 0"
    using that unfolding decode_whole[OF ex]
    by (simp add: example_record_def record_position_def record_color_def int32_le_def
        offset_or_zero_def)
  then show ?thesis
    using decode_whole[OF assms, of nodeBox scl "Some worldOffset"]
      decode_whole[OF assms, of nodeBox scl None]
      nth_concat_map3[of "record_position buffer nodeBox scl worldOffset" _ n]
      nth_concat_map3[of "record_color buffer" _ n]
    by (simp add: offset_or_zero_def length_concat_map3)
qed

theorem decode_records_witness:
  "length example_record = 1 * 16
   \<and> decode example_record \<lparr>lx = 0, ly = 0, lz = 0, ux = 8, uy = 8, uz = 8\<rparr> 0.01
        (Some \<lparr>vx = 0, vy = 0, vz = 0\<rparr>) = Inr ([1, 0, 0], [1, 0, 0])"
  using decode_records[of example_record 1 "\<lparr>lx = 0, ly = 0, lz = 0, ux = 8, uy = 8, uz = 8\<rparr>"
      "0.01" "\<lparr>vx = 0, vy = 0, vz = 0\<rparr>"]
  by (simp add: example_record_def record_position_def record_color_def int32_le_def)

section \<open>Verification: truncated buffers\<close>

lemma load_parse_failure:
  assumes "fetch nodeName = Ok buffer"
    and "nodeName \<notin> potreeLoadedNodes v" "nodeName \<notin> potreeLoading v" "nodeName \<notin> potreeFailedNodes v"
    and "\<And>v1. potreeMetadata v1 = potreeMetadata v \<Longrightarrow> potreeOffset v1 = potreeOffset v \<Longrightarrow> isl (parse_node v1 nodeName buffer)"
  shows "loadPotreeNodeIfExists fetch nodeName v
         = v\<lparr>potreeFailedNodes := insert nodeName (potreeFailedNodes v),
              requests := requests v @ [''/potree/data/r/'' @ nodeName @ ''.bin'']\<rparr>"
proof -
  let ?v1 = "v\<lparr>potreeLoading := insert nodeName (potreeLoading v),
                requests := requests v @ [''/potree/data/r/'' @ nodeName @ ''.bin'']\<rparr>"
  have "isl (parse_node ?v1 nodeName buffer)" by (rule assms(5)) simp_all
  then obtain e where "parse_node ?v1 nodeName buffer = Inl e"
    by (cases "parse_node ?v1 nodeName buffer") auto
  then show ?thesis
    using assms(1-4) by (simp add: loadPotreeNodeIfExists_def Let_def load_failed_def)
qed

lemma parse_node_truncated:
  assumes "0 < length buffer mod 16" "length buffer mod 16 < 15"
  shows "isl (parse_node v nodeName buffer)"
  using decode_truncated[OF assms]
  by (cases "potreeMetadata v")
     (auto simp: parse_node_def and_then_def getNodeBoundingBox_def Let_def)

text \<open>
  C7, as the specification states it: every buffer whose length is not a multiple of 16 is
  rejected and nothing of it is installed. A buffer of 15 bytes is not rejected: the loop
  runs once, every read of that round stays inside the buffer (the sixteenth byte is
  never read), and the node is installed and recorded as loaded with one point.
\<close>

theorem truncated_buffer_counterexample:
  "length example_short_record mod 16 = 15
   \<and> decode example_short_record \<lparr>lx = 0, ly = 0, lz = 0, ux = 8, uy = 8, uz = 8\<rparr> 0.01
        (Some \<lparr>vx = 0, vy = 0, vz = 0\<rparr>) = Inr ([1, 0, 0], [1, 0, 0])
   \<and> loadPotreeNodeIfExists (\<lambda>nodeName. Ok example_short_record) ''r'' example_viewer
      = example_viewer
          \<lparr>potreeNodes :=
             [(''r'', \<lparr>name = ''potree_r'', position = [Num 1, Num 0, Num 0],
                       color = [Num 1, Num 0, Num 0], visible = True,
                       originalPositions = Some [Num 1, Num 0, Num 0],
                       originalColors = Some [Num 1, Num 0, Num 0], deletedPoints = None\<rparr>)],
           potreeLoadedNodes := {''r''},
           scene := [''potree_r''],
           requests := [''/potree/data/r/r.bin'']\<rparr>"
proof -
  have m: "length example_short_record mod 16 = 15"
    by (simp add: example_short_record_def)
  have d: "decode example_short_record \<lparr>lx = 0, ly = 0, lz = 0, ux = 8, uy = 8, uz = 8\<rparr> 0.01
        (Some \<lparr>vx = 0, vy = 0, vz = 0\<rparr>) = Inr ([1, 0, 0], [1, 0, 0])"
    unfolding decode_one_byte_short[OF m]
    by (simp add: example_short_record_def record_position_def record_color_def int32_le_def
        offset_or_zero_def)
  show ?thesis
    using m d
    by (simp add: loadPotreeNodeIfExists_def example_viewer_def parse_node_def and_then_def
        getNodeBoundingBox_def install_node_def storeOriginalPositions_def Let_def)
qed

text \<open>
  C7, amended. For every fetched buffer whose length leaves a remainder from 1 to 14 when
  divided by 16, decoding throws (a RangeError of the \<^verbatim>\<open>DataView\<close>, where the
  specification says TruncatedRecord), the node's load ends as failed, it is neither
  loading nor loaded, and nothing is installed: the node store and the scene are as
  before. A buffer with remainder 15 is not rejected.
\<close>

theorem truncated_buffer_rejected:
  assumes "0 < length buffer mod 16" "length buffer mod 16 < 15"
  shows "decode buffer nodeBox scl worldOffset = Inl RangeError
         \<and> (fetch nodeName = Ok buffer \<and> nodeName \<notin> potreeLoadedNodes v
              \<and> nodeName \<notin> potreeLoading v \<and> nodeName \<notin> potreeFailedNodes v \<longrightarrow>
            nodeName \<in> potreeFailedNodes (loadPotreeNodeIfExists fetch nodeName v)
            \<and> potreeLoading (loadPotreeNodeIfExists fetch nodeName v) = potreeLoading v
            \<and> potreeLoadedNodes (loadPotreeNodeIfExists fetch nodeName v) = potreeLoadedNodes v
            \<and> potreeNodes (loadPotreeNodeIfExists fetch nodeName v) = potreeNodes v
            \<and> scene (loadPotreeNodeIfExists fetch nodeName v) = scene v)"
proof (intro conjI impI)
  show "decode buffer nodeBox scl worldOffset = Inl RangeError"
    using assms by (rule decode_truncated)
next
  assume a: "fetch nodeName = Ok buffer \<and> nodeName \<notin> potreeLoadedNodes v
              \<and> nodeName \<notin> potreeLoading v \<and> nodeName \<notin> potreeFailedNodes v"
  have l: "loadPotreeNodeIfExists fetch nodeName v
         = v\<lparr>potreeFailedNodes := insert nodeName (potreeFailedNodes v),
              requests := requests v @ [''/potree/data/r/'' @ nodeName @ ''.bin'']\<rparr>"
    using a parse_node_truncated[OF assms] by (intro load_parse_failure) simp_all
  show "nodeName \<in> potreeFailedNodes (loadPotreeNodeIfExists fetch nodeName v)"
    and "potreeLoading (loadPotreeNodeIfExists fetch nodeName v) = potreeLoading v"
    and "potreeLoadedNodes (loadPotreeNodeIfExists fetch nodeName v) = potreeLoadedNodes v"
    and "potreeNodes (loadPotreeNodeIfExists fetch nodeName v) = potreeNodes v"
    and "scene (loadPotreeNodeIfExists fetch nodeName v) = scene v"
    unfolding l by simp_all
qed

theorem truncated_buffer_rejected_witness:
  "0 < length [1 :: 8 word] mod 16 \<and> length [1 :: 8 word] mod 16 < 15
   \<and> decode [1] \<lparr>lx = 0, ly = 0, lz = 0, ux = 8, uy = 8, uz = 8\<rparr> 0.01 None = Inl RangeError
   \<and> ''r'' \<in> potreeFailedNodes (loadPotreeNodeIfExists (\<lambda>nodeName. Ok [1]) ''r'' example_viewer)
   \<and> potreeNodes (loadPotreeNodeIfExists (\<lambda>nodeName. Ok [1]) ''r'' example_viewer) = []
   \<and> scene (loadPotreeNodeIfExists (\<lambda>nodeName. Ok [1]) ''r'' example_viewer) = []"
  using truncated_buffer_rejected[of "[1]" "\<lparr>lx = 0, ly = 0, lz = 0, ux = 8, uy = 8, uz = 8\<rparr>" "0.01"
      None "\<lambda>nodeName. Ok [1]" "''r''" example_viewer]
  by (simp add: example_viewer_def)

section \<open>Verification: additive visibility\<close>

lemma shown_updatePotreeNodeVisibility: "shown_up_to d (updatePotreeNodeVisibility d v)"
  by (auto simp: shown_up_to_def updatePotreeNodeVisibility_def list_all_iff Let_def)

lemma same_loads_updatePotreeNodeVisibility: "same_loads v (updatePotreeNodeVisibility d v)"
  by (auto simp: same_loads_def same_buffers_def updatePotreeNodeVisibility_def Let_def)

lemma depth_updatePotreeNodeVisibility [simp]:
  "currentLODDepth (updatePotreeNodeVisibility d v) = currentLODDepth v"
  by (simp add: updatePotreeNodeVisibility_def)

lemma same_loads_refl: "same_loads v v"
  by (simp add: same_loads_def same_buffers_def)

lemma same_loads_trans: "same_loads a b \<Longrightarrow> same_loads b c \<Longrightarrow> same_loads a c"
  by (simp add: same_loads_def same_buffers_def)

lemma same_loads_depth: "same_loads v (v\<lparr>currentLODDepth := d\<rparr>)"
  by (simp add: same_loads_def same_buffers_def)

lemma decreaseLODDepth_same_loads: "same_loads v (decreaseLODDepth v)"
  using same_loads_updatePotreeNodeVisibility[of "v\<lparr>currentLODDepth := currentLODDepth v - 1\<rparr>" "currentLODDepth v - 1"]
  by (auto simp: decreaseLODDepth_def Let_def same_loads_refl same_loads_def same_buffers_def)

lemma decreaseLODDepth_depth:
  "currentLODDepth (decreaseLODDepth v) = (if currentLODDepth v \<le> 0 then currentLODDepth v else currentLODDepth v - 1)"
  by (simp add: decreaseLODDepth_def Let_def)

lemma decreaseLODDepth_shown:
  "0 < currentLODDepth v \<Longrightarrow> shown_up_to (currentLODDepth v - 1) (decreaseLODDepth v)"
  using shown_updatePotreeNodeVisibility by (simp add: decreaseLODDepth_def Let_def)


lemma set_generateNodes:
  "set (generateNodes depth prefix currentDepth)
   = insert prefix
       (if currentDepth < depth
        then (\<Union>i\<in>{0..<8}. set (generateNodes depth (prefix @ [digit_char i]) (currentDepth + 1)))
        else {})"
  apply (subst generateNodes.simps)
  apply (simp only: list.set set_concat set_map set_upt if_distrib[of set] cong: if_cong)
  apply (simp only: list.set image_image)
  done

lemma generateNodes_mono:
  "d \<le> D \<Longrightarrow> set (generateNodes d p c) \<subseteq> set (generateNodes D p c)"
proof (induction d p c rule: generateNodes.induct)
  case (1 depth prefix currentDepth)
  show ?case
  proof (cases "currentDepth < depth")
    case True
    then have D: "currentDepth < D" using "1.prems" by simp
    have sub: "set (generateNodes depth (prefix @ [digit_char i]) (currentDepth + 1))
          \<subseteq> set (generateNodes D (prefix @ [digit_char i]) (currentDepth + 1))" if "i \<in> {0..<8}" for i
    proof (rule "1.IH"[OF True _ "1.prems"])
      show "i \<in> set [0..<8]" using that by (simp only: set_upt)
    qed
    have e1: "set (generateNodes depth prefix currentDepth)
       = insert prefix (\<Union>i\<in>{0..<8}. set (generateNodes depth (prefix @ [digit_char i]) (currentDepth + 1)))"
      using True by (simp only: set_generateNodes[of depth prefix currentDepth] if_True)
    have e2: "set (generateNodes D prefix currentDepth)
       = insert prefix (\<Union>i\<in>{0..<8}. set (generateNodes D (prefix @ [digit_char i]) (currentDepth + 1)))"
      using D by (simp only: set_generateNodes[of D prefix currentDepth] if_True)
    have "(\<Union>i\<in>{0..<8}. set (generateNodes depth (prefix @ [digit_char i]) (currentDepth + 1)))
       \<subseteq> (\<Union>i\<in>{0..<8}. set (generateNodes D (prefix @ [digit_char i]) (currentDepth + 1)))"
      by (rule UN_mono[OF subset_refl]) (rule sub)
    then show ?thesis
      by (simp only: e1 e2 insert_mono)
  next
    case False
    have e1: "set (generateNodes depth prefix currentDepth) = {prefix}"
      using False by (simp only: set_generateNodes[of depth prefix currentDepth] if_False)
    have "prefix \<in> set (generateNodes D prefix currentDepth)"
      by (simp only: set_generateNodes[of D prefix currentDepth] insertI1)
    then show ?thesis by (simp only: e1 singleton_iff empty_subsetI insert_subset simp_thms)
  qed
qed

lemma loadNodesForDepth_covered:
  assumes "set (generateNodes depth ''r'' 0) \<subseteq> potreeLoadedNodes v \<union> potreeFailedNodes v"
  shows "loadNodesForDepth fetch depth v = v"
proof -
  have "filter (\<lambda>nodeName. nodeName \<notin> potreeLoadedNodes v \<and> nodeName \<notin> potreeFailedNodes v)
          (generateNodes depth ''r'' 0) = []"
    unfolding filter_empty_conv using assms by blast
  then show ?thesis by (simp add: loadNodesForDepth_def Let_def)
qed

lemma increaseLODDepth_covered:
  assumes "set (generateNodes D ''r'' 0) \<subseteq> potreeLoadedNodes v \<union> potreeFailedNodes v"
    and "currentLODDepth v < D"
  shows "increaseLODDepth fetch v
         = (if currentLODDepth v \<ge> 6 then v
            else updatePotreeNodeVisibility (currentLODDepth v + 1) (v\<lparr>currentLODDepth := currentLODDepth v + 1\<rparr>))"
proof -
  define v1 where "v1 = v\<lparr>currentLODDepth := currentLODDepth v + 1\<rparr>"
  have d: "currentLODDepth v1 = currentLODDepth v + 1"
    and l: "potreeLoadedNodes v1 = potreeLoadedNodes v"
    and f: "potreeFailedNodes v1 = potreeFailedNodes v"
    by (simp_all add: v1_def)
  have "currentLODDepth v + 1 \<le> D" using assms(2) by simp
  then have "set (generateNodes (currentLODDepth v + 1) ''r'' 0) \<subseteq> set (generateNodes D ''r'' 0)"
    by (rule generateNodes_mono)
  then have "set (generateNodes (currentLODDepth v1) ''r'' 0) \<subseteq> potreeLoadedNodes v1 \<union> potreeFailedNodes v1"
    unfolding d l f using assms(1) by (rule order_trans)
  then have "loadNodesForDepth fetch (currentLODDepth v1) v1 = v1"
    by (rule loadNodesForDepth_covered)
  then show ?thesis
    unfolding increaseLODDepth_def Let_def v1_def[symmetric] by (simp add: d)
qed

lemma increaseLODDepth_covered_facts:
  assumes "set (generateNodes D ''r'' 0) \<subseteq> potreeLoadedNodes v \<union> potreeFailedNodes v"
    and "currentLODDepth v < D" and "D \<le> 6"
  shows "currentLODDepth (increaseLODDepth fetch v) = currentLODDepth v + 1"
    and "same_loads v (increaseLODDepth fetch v)"
    and "shown_up_to (currentLODDepth v + 1) (increaseLODDepth fetch v)"
proof -
  have e: "increaseLODDepth fetch v
           = updatePotreeNodeVisibility (currentLODDepth v + 1) (v\<lparr>currentLODDepth := currentLODDepth v + 1\<rparr>)"
    using increaseLODDepth_covered[OF assms(1,2), of fetch] assms(2,3) by simp
  show "currentLODDepth (increaseLODDepth fetch v) = currentLODDepth v + 1"
    unfolding e by simp
  show "same_loads v (increaseLODDepth fetch v)"
    unfolding e
    by (rule same_loads_trans[OF same_loads_depth same_loads_updatePotreeNodeVisibility])
  show "shown_up_to (currentLODDepth v + 1) (increaseLODDepth fetch v)"
    unfolding e by (rule shown_updatePotreeNodeVisibility)
qed

lemma decrease_iterated:
  assumes "int k \<le> currentLODDepth v"
  shows "currentLODDepth ((decreaseLODDepth ^^ k) v) = currentLODDepth v - int k
         \<and> same_loads v ((decreaseLODDepth ^^ k) v)
         \<and> (0 < k \<longrightarrow> shown_up_to (currentLODDepth v - int k) ((decreaseLODDepth ^^ k) v))"
  using assms
proof (induction k)
  case 0
  then show ?case by (simp add: same_loads_refl)
next
  case (Suc k)
  let ?w = "(decreaseLODDepth ^^ k) v"
  have IH: "currentLODDepth ?w = currentLODDepth v - int k" "same_loads v ?w"
    using Suc by simp_all
  have pos: "0 < currentLODDepth ?w" using IH(1) Suc.prems by simp
  have "currentLODDepth (decreaseLODDepth ?w) = currentLODDepth v - int (Suc k)"
    using pos IH(1) by (simp add: decreaseLODDepth_depth)
  moreover have "same_loads v (decreaseLODDepth ?w)"
    using IH(2) decreaseLODDepth_same_loads by (rule same_loads_trans)
  moreover have "shown_up_to (currentLODDepth v - int (Suc k)) (decreaseLODDepth ?w)"
    using decreaseLODDepth_shown[OF pos] IH(1) by (simp add: algebra_simps)
  ultimately show ?case by simp
qed

lemma same_loads_covered:
  "same_loads v w \<Longrightarrow> potreeLoadedNodes w \<union> potreeFailedNodes w = potreeLoadedNodes v \<union> potreeFailedNodes v"
  by (simp add: same_loads_def)

lemma increase_iterated:
  assumes "set (generateNodes D ''r'' 0) \<subseteq> potreeLoadedNodes v \<union> potreeFailedNodes v"
    and "currentLODDepth v + int k \<le> D" and "D \<le> 6"
  shows "currentLODDepth ((increaseLODDepth fetch ^^ k) v) = currentLODDepth v + int k
         \<and> same_loads v ((increaseLODDepth fetch ^^ k) v)
         \<and> (0 < k \<longrightarrow> shown_up_to (currentLODDepth v + int k) ((increaseLODDepth fetch ^^ k) v))"
  using assms(2)
proof (induction k)
  case 0
  then show ?case by (simp add: same_loads_refl)
next
  case (Suc k)
  define w where "w = (increaseLODDepth fetch ^^ k) v"
  have le: "currentLODDepth v + int k \<le> D" using Suc.prems by simp
  have IH1: "currentLODDepth w = currentLODDepth v + int k"
    and IH2: "same_loads v w"
    unfolding w_def using Suc.IH[OF le] by blast+
  have cov: "set (generateNodes D ''r'' 0) \<subseteq> potreeLoadedNodes w \<union> potreeFailedNodes w"
    unfolding same_loads_covered[OF IH2] by (rule assms(1))
  have lt: "currentLODDepth w < D" unfolding IH1 using Suc.prems by simp
  note f = increaseLODDepth_covered_facts[OF cov lt assms(3), of fetch]
  have s: "(increaseLODDepth fetch ^^ Suc k) v = increaseLODDepth fetch w"
    by (simp add: w_def)
  have e: "currentLODDepth v + int (Suc k) = currentLODDepth w + 1"
    unfolding IH1 by simp
  show ?case
    unfolding s e using f same_loads_trans[OF IH2 f(2)] by blast
qed

lemma loadPotreeNodeIfExists_depth [simp]:
  "currentLODDepth (loadPotreeNodeIfExists fetch nodeName v) = currentLODDepth v"
  by (simp add: loadPotreeNodeIfExists_def load_failed_def install_node_def Let_def
      split: response.splits sum.splits prod.splits)

lemma foldl_load_depth:
  "currentLODDepth (foldl (\<lambda>v' nodeName. loadPotreeNodeIfExists fetch nodeName v') v names)
   = currentLODDepth v"
  by (induction names arbitrary: v) simp_all

lemma increaseLODDepth_shown:
  assumes "currentLODDepth v < 6"
  shows "currentLODDepth (increaseLODDepth fetch v) = currentLODDepth v + 1
         \<and> shown_up_to (currentLODDepth v + 1) (increaseLODDepth fetch v)"
proof -
  define v2 where "v2 = loadNodesForDepth fetch (currentLODDepth v + 1) (v\<lparr>currentLODDepth := currentLODDepth v + 1\<rparr>)"
  have d: "currentLODDepth v2 = currentLODDepth v + 1"
    unfolding v2_def loadNodesForDepth_def Let_def by (simp only: foldl_load_depth) simp
  have e: "increaseLODDepth fetch v = updatePotreeNodeVisibility (currentLODDepth v2) v2"
    using assms by (simp add: increaseLODDepth_def Let_def v2_def)
  show ?thesis
    unfolding e using shown_updatePotreeNodeVisibility[of "currentLODDepth v2" v2] d by simp
qed

text \<open>
  C5. Additive visibility. After \<^verbatim>\<open>updatePotreeNodeVisibility\<close>, and so after every
  change of the depth by \<^verbatim>\<open>decreaseLODDepth\<close> or \<^verbatim>\<open>increaseLODDepth\<close>, a loaded node
  at depth \<open>d\<close> is visible iff \<open>d\<close> is at most the current depth. Decreasing the depth
  issues no load, unloads nothing and leaves every buffer as it is: only visibility flags
  change. When every node name up to the current depth has been loaded or has failed,
  going down \<open>k\<close> levels and up again \<open>k\<close> levels (from 3 to 1 and back to 3, say) sends
  no request and ends at the same depth with the same loaded nodes, visible up to that
  depth.
\<close>

theorem additive_visibility:
  "shown_up_to maxDepth (updatePotreeNodeVisibility maxDepth v)
   \<and> same_loads v (decreaseLODDepth v)
   \<and> (0 < currentLODDepth v \<longrightarrow>
        currentLODDepth (decreaseLODDepth v) = currentLODDepth v - 1
        \<and> shown_up_to (currentLODDepth (decreaseLODDepth v)) (decreaseLODDepth v))
   \<and> (currentLODDepth v < 6 \<longrightarrow>
        currentLODDepth (increaseLODDepth fetch v) = currentLODDepth v + 1
        \<and> shown_up_to (currentLODDepth (increaseLODDepth fetch v)) (increaseLODDepth fetch v))
   \<and> (set (generateNodes (currentLODDepth v) ''r'' 0) \<subseteq> potreeLoadedNodes v \<union> potreeFailedNodes v
        \<and> 0 < k \<and> int k \<le> currentLODDepth v \<and> currentLODDepth v \<le> 6 \<longrightarrow>
        currentLODDepth ((decreaseLODDepth ^^ k) v) = currentLODDepth v - int k
        \<and> same_loads v ((decreaseLODDepth ^^ k) v)
        \<and> shown_up_to (currentLODDepth v - int k) ((decreaseLODDepth ^^ k) v)
        \<and> currentLODDepth ((increaseLODDepth fetch ^^ k) ((decreaseLODDepth ^^ k) v)) = currentLODDepth v
        \<and> same_loads v ((increaseLODDepth fetch ^^ k) ((decreaseLODDepth ^^ k) v))
        \<and> shown_up_to (currentLODDepth v) ((increaseLODDepth fetch ^^ k) ((decreaseLODDepth ^^ k) v)))"
proof (intro conjI impI)
  show "shown_up_to maxDepth (updatePotreeNodeVisibility maxDepth v)"
    by (rule shown_updatePotreeNodeVisibility)
  show "same_loads v (decreaseLODDepth v)"
    by (rule decreaseLODDepth_same_loads)
next
  assume p: "0 < currentLODDepth v"
  then show d: "currentLODDepth (decreaseLODDepth v) = currentLODDepth v - 1"
    by (simp add: decreaseLODDepth_depth)
  show "shown_up_to (currentLODDepth (decreaseLODDepth v)) (decreaseLODDepth v)"
    unfolding d using p by (rule decreaseLODDepth_shown)
next
  assume p: "currentLODDepth v < 6"
  from increaseLODDepth_shown[OF p, of fetch]
  show "currentLODDepth (increaseLODDepth fetch v) = currentLODDepth v + 1"
    and "shown_up_to (currentLODDepth (increaseLODDepth fetch v)) (increaseLODDepth fetch v)"
    by simp_all
next
  assume h: "set (generateNodes (currentLODDepth v) ''r'' 0) \<subseteq> potreeLoadedNodes v \<union> potreeFailedNodes v
        \<and> 0 < k \<and> int k \<le> currentLODDepth v \<and> currentLODDepth v \<le> 6"
  define w where "w = (decreaseLODDepth ^^ k) v"
  have k: "0 < k" and le: "int k \<le> currentLODDepth v" and six: "currentLODDepth v \<le> 6"
    and cov: "set (generateNodes (currentLODDepth v) ''r'' 0) \<subseteq> potreeLoadedNodes v \<union> potreeFailedNodes v"
    using h by blast+
  from decrease_iterated[OF le] k
  have w1: "currentLODDepth w = currentLODDepth v - int k"
    and w2: "same_loads v w"
    and w3: "shown_up_to (currentLODDepth v - int k) w"
    unfolding w_def by blast+
  have covw: "set (generateNodes (currentLODDepth v) ''r'' 0) \<subseteq> potreeLoadedNodes w \<union> potreeFailedNodes w"
    unfolding same_loads_covered[OF w2] by (rule cov)
  have lew: "currentLODDepth w + int k \<le> currentLODDepth v"
    unfolding w1 by simp
  have bk: "currentLODDepth w + int k = currentLODDepth v"
    unfolding w1 by simp
  from increase_iterated[OF covw lew six, of fetch] k
  have u1: "currentLODDepth ((increaseLODDepth fetch ^^ k) w) = currentLODDepth v"
    and u2: "same_loads w ((increaseLODDepth fetch ^^ k) w)"
    and u3: "shown_up_to (currentLODDepth v) ((increaseLODDepth fetch ^^ k) w)"
    unfolding bk by blast+
  show "currentLODDepth ((decreaseLODDepth ^^ k) v) = currentLODDepth v - int k"
    and "same_loads v ((decreaseLODDepth ^^ k) v)"
    and "shown_up_to (currentLODDepth v - int k) ((decreaseLODDepth ^^ k) v)"
    and "currentLODDepth ((increaseLODDepth fetch ^^ k) ((decreaseLODDepth ^^ k) v)) = currentLODDepth v"
    and "same_loads v ((increaseLODDepth fetch ^^ k) ((decreaseLODDepth ^^ k) v))"
    and "shown_up_to (currentLODDepth v) ((increaseLODDepth fetch ^^ k) ((decreaseLODDepth ^^ k) v))"
    using w1 w2 w3 u1 u3 same_loads_trans[OF w2 u2] unfolding w_def by blast+
qed

theorem additive_visibility_witness:
  "currentLODDepth example_loaded_viewer = 2
   \<and> set (generateNodes 2 ''r'' 0)
        \<subseteq> potreeLoadedNodes example_loaded_viewer \<union> potreeFailedNodes example_loaded_viewer
   \<and> map (\<lambda>(nodeName, pointsObj). (nodeName, visible pointsObj))
         (potreeNodes ((decreaseLODDepth ^^ 2) example_loaded_viewer))
       = [(''r'', True), (''r0'', False), (''r07'', False)]
   \<and> currentLODDepth ((decreaseLODDepth ^^ 2) example_loaded_viewer) = 0
   \<and> potreeLoadedNodes ((decreaseLODDepth ^^ 2) example_loaded_viewer) = {''r'', ''r0'', ''r07''}
   \<and> shown_up_to 0 ((decreaseLODDepth ^^ 2) example_loaded_viewer)
   \<and> currentLODDepth ((increaseLODDepth (\<lambda>nodeName. NotOk) ^^ 2)
                           ((decreaseLODDepth ^^ 2) example_loaded_viewer)) = 2
   \<and> requests ((increaseLODDepth (\<lambda>nodeName. NotOk) ^^ 2)
                    ((decreaseLODDepth ^^ 2) example_loaded_viewer)) = [''/potree/data/r/r.bin'']
   \<and> potreeLoadedNodes ((increaseLODDepth (\<lambda>nodeName. NotOk) ^^ 2)
                            ((decreaseLODDepth ^^ 2) example_loaded_viewer)) = {''r'', ''r0'', ''r07''}
   \<and> shown_up_to 2 ((increaseLODDepth (\<lambda>nodeName. NotOk) ^^ 2)
                         ((decreaseLODDepth ^^ 2) example_loaded_viewer))"
proof -
  have d: "currentLODDepth example_loaded_viewer = 2"
    by (simp add: example_loaded_viewer_def)
  have l: "potreeLoadedNodes example_loaded_viewer = {''r'', ''r0'', ''r07''}"
    and f: "potreeFailedNodes example_loaded_viewer = set (generateNodes 2 ''r'' 0) - {''r'', ''r0'', ''r07''}"
    and r: "requests example_loaded_viewer = [''/potree/data/r/r.bin'']"
    by (simp_all add: example_loaded_viewer_def)
  have c: "set (generateNodes 2 ''r'' 0)
        \<subseteq> potreeLoadedNodes example_loaded_viewer \<union> potreeFailedNodes example_loaded_viewer"
    unfolding l f by blast
  have n: "map (\<lambda>(nodeName, pointsObj). (nodeName, visible pointsObj))
         (potreeNodes ((decreaseLODDepth ^^ 2) example_loaded_viewer))
       = [(''r'', True), (''r0'', False), (''r07'', False)]"
    by (simp add: numeral_2_eq_2 decreaseLODDepth_def updatePotreeNodeVisibility_def
        example_loaded_viewer_def example_viewer_def Let_def)
  have h: "set (generateNodes (currentLODDepth example_loaded_viewer) ''r'' 0)
             \<subseteq> potreeLoadedNodes example_loaded_viewer \<union> potreeFailedNodes example_loaded_viewer
           \<and> 0 < (2::nat) \<and> int 2 \<le> currentLODDepth example_loaded_viewer
           \<and> currentLODDepth example_loaded_viewer \<le> 6"
    unfolding d using c by simp
  from additive_visibility[of 1 example_loaded_viewer "\<lambda>nodeName. NotOk" 2] h
  have t: "currentLODDepth ((decreaseLODDepth ^^ 2) example_loaded_viewer) = currentLODDepth example_loaded_viewer - int 2"
    "same_loads example_loaded_viewer ((decreaseLODDepth ^^ 2) example_loaded_viewer)"
    "shown_up_to (currentLODDepth example_loaded_viewer - int 2) ((decreaseLODDepth ^^ 2) example_loaded_viewer)"
    "currentLODDepth ((increaseLODDepth (\<lambda>nodeName. NotOk) ^^ 2) ((decreaseLODDepth ^^ 2) example_loaded_viewer)) = currentLODDepth example_loaded_viewer"
    "same_loads example_loaded_viewer ((increaseLODDepth (\<lambda>nodeName. NotOk) ^^ 2) ((decreaseLODDepth ^^ 2) example_loaded_viewer))"
    "shown_up_to (currentLODDepth example_loaded_viewer) ((increaseLODDepth (\<lambda>nodeName. NotOk) ^^ 2) ((decreaseLODDepth ^^ 2) example_loaded_viewer))"
    by blast+
  show ?thesis
    using d c n t l r unfolding same_loads_def by simp
qed

section \<open>Verification: delete, undo, redo\<close>

lemma length_hide_point [simp]: "length (hide_point ps idx) = length ps"
  by (simp add: hide_point_def)

lemma length_foldl_hide [simp]: "length (foldl hide_point ps S) = length ps"
  by (induction S arbitrary: ps) simp_all

lemma div3_cases: "(m div 3 = idx) = (m = idx * 3 \<or> m = idx * 3 + 1 \<or> m = idx * 3 + (2::nat))"
  by presburger

lemma nth_hide_point:
  "m < length ps \<Longrightarrow> hide_point ps idx ! m = (if m div 3 = idx then PosInfinity else ps ! m)"
  unfolding div3_cases by (auto simp: hide_point_def nth_list_update)

lemma nth_foldl_hide:
  "m < length ps \<Longrightarrow> foldl hide_point ps S ! m = (if m div 3 \<in> set S then PosInfinity else ps ! m)"
proof (induction S arbitrary: ps)
  case Nil
  then show ?case by simp
next
  case (Cons idx S)
  have "foldl hide_point (hide_point ps idx) S ! m
        = (if m div 3 \<in> set S then PosInfinity else hide_point ps idx ! m)"
    using Cons.prems by (intro Cons.IH) simp
  then show ?case using Cons.prems by (simp add: nth_hide_point)
qed

lemma length_restore_point [simp]: "length (restore_point original arr idx) = length arr"
  by (simp add: restore_point_def)

lemma length_foldl_restore [simp]: "length (foldl (restore_point original) arr S) = length arr"
  by (induction S arbitrary: arr) simp_all

lemma nth_restore_point:
  "m < length arr \<Longrightarrow>
   restore_point original arr idx ! m = (if m div 3 = idx then arr_get original m else arr ! m)"
  unfolding div3_cases by (auto simp: restore_point_def nth_list_update)

lemma nth_foldl_restore:
  "m < length arr \<Longrightarrow>
   foldl (restore_point original) arr S ! m = (if m div 3 \<in> set S then arr_get original m else arr ! m)"
proof (induction S arbitrary: arr)
  case Nil
  then show ?case by simp
next
  case (Cons idx S)
  have "foldl (restore_point original) (restore_point original arr idx) S ! m
        = (if m div 3 \<in> set S then arr_get original m else restore_point original arr idx ! m)"
    using Cons.prems by (intro Cons.IH) simp
  then show ?case using Cons.prems by (simp add: nth_restore_point)
qed

lemma set_set_add [simp]: "set (set_add s i) = insert i (set s)"
  by (auto simp: set_add_def)

lemma set_foldl_set_add [simp]: "set (foldl set_add d S) = set d \<union> set S"
  by (induction S arbitrary: d) auto

lemma set_set_delete [simp]: "set (set_delete s i) = set s - {i}"
  by (auto simp: set_delete_def)

lemma set_foldl_set_delete [simp]: "set (foldl set_delete d S) = set d - set S"
  by (induction S arbitrary: d) auto

lemma hide_after_restore:
  "foldl hide_point (foldl (restore_point original) (foldl hide_point ps S) S) S = foldl hide_point ps S"
  by (rule nth_equalityI) (simp_all add: nth_foldl_hide nth_foldl_restore)

lemma hide_idem: "foldl hide_point (foldl hide_point ps S) S = foldl hide_point ps S"
  by (rule nth_equalityI) (simp_all add: nth_foldl_hide)

lemma indices_of_copy [simp]:
  "indices_of (map (\<lambda>(nodeName, indices). (nodeName, indices)) selected) = indices_of selected"
  by (simp add: indices_of_def fun_eq_iff)

lemma split_index: "m div 3 = idx \<Longrightarrow> m = idx * 3 + 0 \<or> m = idx * 3 + 1 \<or> m = idx * 3 + (2::nat)"
  by presburger

lemma deleted_of_simps [simp]:
  "deleted_of (node\<lparr>deletedPoints := Some d\<rparr>) = d"
  "deleted_of (node\<lparr>position := p\<rparr>) = deleted_of node"
  "deleted_of (node\<lparr>color := c\<rparr>) = deleted_of node"
  "deleted_of (node\<lparr>deletedPoints := map_option f (deletedPoints node)\<rparr>)
   = (case deletedPoints node of None \<Rightarrow> [] | Some d \<Rightarrow> f d)"
  by (simp_all add: deleted_of_def split: option.splits)

lemma delete_in_node_fields:
  "position (delete_in_node selected nodeName node) = foldl hide_point (position node) (indices_of selected nodeName)"
  "set (deleted_of (delete_in_node selected nodeName node)) = set (deleted_of node) \<union> set (indices_of selected nodeName)"
  "color (delete_in_node selected nodeName node) = color node"
  "originalPositions (delete_in_node selected nodeName node) = originalPositions node"
  "originalColors (delete_in_node selected nodeName node) = originalColors node"
  by (simp_all add: delete_in_node_def indices_of_def split: option.splits)

lemma redo_in_node_eq: "redo_in_node action = delete_in_node (points action)"
  by (simp add: redo_in_node_def delete_in_node_def fun_eq_iff)

lemma undo_in_node_fields:
  "position (undo_in_node action nodeName node)
   = (case originalPositions node of
        None \<Rightarrow> position node
      | Some original \<Rightarrow> foldl (restore_point original) (position node) (indices_of (points action) nodeName))"
  "color (undo_in_node action nodeName node)
   = (case originalColors node of
        None \<Rightarrow> color node
      | Some original \<Rightarrow> foldl (restore_point original) (color node) (indices_of (points action) nodeName))"
  by (simp_all add: undo_in_node_def restorePointColors_def indices_of_def Let_def
      split: option.splits)

lemma undo_in_node_deleted:
  "set (deleted_of (undo_in_node action nodeName node))
   = (case originalPositions node of
        None \<Rightarrow> set (deleted_of node)
      | Some original \<Rightarrow> set (deleted_of node) - set (indices_of (points action) nodeName))"
proof (cases "deletedPoints node")
  case None
  then show ?thesis
    by (simp add: undo_in_node_def restorePointColors_def indices_of_def deleted_of_def Let_def
        split: option.splits)
next
  case (Some d)
  then show ?thesis
    by (auto simp: undo_in_node_def restorePointColors_def indices_of_def deleted_of_def Let_def
        split: option.splits)
qed

lemma restore_after_hide:
  assumes "list_all (\<lambda>idx. list_all (\<lambda>j. idx * 3 + j < length ps
                          \<longrightarrow> arr_get original (idx * 3 + j) = ps ! (idx * 3 + j)) [0, 1, 2]) S"
  shows "foldl (restore_point original) (foldl hide_point ps S) S = ps"
proof (rule nth_equalityI)
  show "length (foldl (restore_point original) (foldl hide_point ps S) S) = length ps" by simp
next
  fix m assume "m < length (foldl (restore_point original) (foldl hide_point ps S) S)"
  then have m: "m < length ps" by simp
  show "foldl (restore_point original) (foldl hide_point ps S) S ! m = ps ! m"
  proof (cases "m div 3 \<in> set S")
    case True
    then have "arr_get original m = ps ! m"
      using assms m split_index[of m "m div 3"] by (auto simp: list_all_iff)
    then show ?thesis using m True by (simp add: nth_foldl_restore)
  next
    case False
    then show ?thesis using m by (simp add: nth_foldl_restore nth_foldl_hide)
  qed
qed

lemma restore_same:
  assumes "list_all (\<lambda>idx. list_all (\<lambda>j. idx * 3 + j < length cs
                          \<longrightarrow> arr_get original (idx * 3 + j) = cs ! (idx * 3 + j)) [0, 1, 2]) S"
  shows "foldl (restore_point original) cs S = cs"
proof (rule nth_equalityI)
  show "length (foldl (restore_point original) cs S) = length cs" by simp
next
  fix m assume "m < length (foldl (restore_point original) cs S)"
  then have m: "m < length cs" by simp
  show "foldl (restore_point original) cs S ! m = cs ! m"
  proof (cases "m div 3 \<in> set S")
    case True
    then have "arr_get original m = cs ! m"
      using assms m split_index[of m "m div 3"] by (auto simp: list_all_iff)
    then show ?thesis using m True by (simp add: nth_foldl_restore)
  next
    case False
    then show ?thesis using m by (simp add: nth_foldl_restore)
  qed
qed

lemma undo_delete_in_node:
  assumes "list_all (point_at_original node) (indices_of selected nodeName)"
    and "points action = selected"
  shows "position (undo_in_node action nodeName (delete_in_node selected nodeName node)) = position node"
    and "color (undo_in_node action nodeName (delete_in_node selected nodeName node)) = color node"
proof -
  let ?S = "indices_of selected nodeName"
  show "position (undo_in_node action nodeName (delete_in_node selected nodeName node)) = position node"
  proof (cases "originalPositions node")
    case None
    then have "?S = []" using assms(1) by (cases ?S) (simp_all add: point_at_original_def)
    then show ?thesis using None by (simp add: undo_in_node_fields delete_in_node_fields assms(2))
  next
    case (Some original)
    have "list_all (\<lambda>idx. list_all (\<lambda>j. idx * 3 + j < length (position node)
                          \<longrightarrow> arr_get original (idx * 3 + j) = position node ! (idx * 3 + j)) [0, 1, 2]) ?S"
      using assms(1) Some by (simp add: point_at_original_def list_all_iff)
    then show ?thesis
      using Some by (simp add: undo_in_node_fields delete_in_node_fields assms(2) restore_after_hide)
  qed
  show "color (undo_in_node action nodeName (delete_in_node selected nodeName node)) = color node"
  proof (cases "originalColors node")
    case None
    then show ?thesis by (simp add: undo_in_node_fields delete_in_node_fields)
  next
    case (Some original)
    have "list_all (\<lambda>idx. list_all (\<lambda>j. idx * 3 + j < length (color node)
                          \<longrightarrow> arr_get original (idx * 3 + j) = color node ! (idx * 3 + j)) [0, 1, 2]) ?S"
      using assms(1) Some by (simp add: point_at_original_def list_all_iff)
    then show ?thesis
      using Some by (simp add: undo_in_node_fields delete_in_node_fields assms(2) restore_same)
  qed
qed

lemma redo_undo_delete_in_node:
  assumes "points action = selected"
  shows "position (redo_in_node action nodeName (undo_in_node action nodeName (delete_in_node selected nodeName node)))
         = position (delete_in_node selected nodeName node)"
    and "set (deleted_of (redo_in_node action nodeName (undo_in_node action nodeName (delete_in_node selected nodeName node))))
         = set (deleted_of (delete_in_node selected nodeName node))"
  unfolding redo_in_node_eq assms
  by (auto simp: delete_in_node_fields undo_in_node_fields undo_in_node_deleted assms
      hide_after_restore hide_idem split: option.splits)

lemma potreeNodes_for_each_node:
  "potreeNodes (for_each_node f v) = map (\<lambda>(nodeName, node). (nodeName, f nodeName node)) (potreeNodes v)"
  by (simp add: for_each_node_def getLoadedNodes_def)

lemma for_each_node_twice:
  "for_each_node f (for_each_node g v) = for_each_node (\<lambda>nodeName node. f nodeName (g nodeName node)) v"
  by (simp add: for_each_node_def getLoadedNodes_def case_prod_unfold comp_def)

lemma deleteSelectedPoints_applied:
  assumes "selectionCount sm \<noteq> 0"
  shows "deleteSelectedPoints now (v, sm)
         = (for_each_node (delete_in_node (selectedPoints sm)) v,
            sm\<lparr>undoStack := undoStack sm @ [\<lparr>atype = ''delete'',
                   points = map (\<lambda>(nodeName, indices). (nodeName, indices)) (selectedPoints sm),
                   timestamp = now\<rparr>],
               redoStack := [], selectedPoints := [], selectionCount := 0\<rparr>)"
  using assms by (simp add: deleteSelectedPoints_def Let_def)

lemma undo_applied:
  assumes "undoStack sm = us @ [action]" "atype action = ''delete''"
  shows "undo (v, sm) = (for_each_node (undo_in_node action) v,
                         sm\<lparr>undoStack := us, redoStack := redoStack sm @ [action]\<rparr>)"
  using assms by (simp add: undo_def Let_def)

lemma redo_applied:
  assumes "redoStack sm = rs @ [action]" "atype action = ''delete''"
  shows "redo (v, sm) = (for_each_node (redo_in_node action) v,
                         sm\<lparr>redoStack := rs, undoStack := undoStack sm @ [action]\<rparr>)"
  using assms by (simp add: redo_def Let_def)

lemma copy_selected [simp]: "map (\<lambda>(nodeName, indices). (nodeName, indices)) selected = selected"
  by (induction selected) auto

lemma states_after_delete:
  fixes now :: nat and sm :: selection_manager
  assumes "selectionCount sm \<noteq> 0"
  defines "action \<equiv> \<lparr>atype = ''delete'', points = selectedPoints sm, timestamp = now\<rparr>"
  shows "deleteSelectedPoints now (v, sm)
         = (for_each_node (delete_in_node (selectedPoints sm)) v,
            sm\<lparr>undoStack := undoStack sm @ [action], redoStack := [],
               selectedPoints := [], selectionCount := 0\<rparr>)"
    and "undo (deleteSelectedPoints now (v, sm))
         = (for_each_node (\<lambda>nodeName node. undo_in_node action nodeName
                              (delete_in_node (selectedPoints sm) nodeName node)) v,
            sm\<lparr>undoStack := undoStack sm, redoStack := [action],
               selectedPoints := [], selectionCount := 0\<rparr>)"
    and "redo (undo (deleteSelectedPoints now (v, sm)))
         = (for_each_node (\<lambda>nodeName node. redo_in_node action nodeName
                              (undo_in_node action nodeName
                                (delete_in_node (selectedPoints sm) nodeName node))) v,
            sm\<lparr>undoStack := undoStack sm @ [action], redoStack := [],
               selectedPoints := [], selectionCount := 0\<rparr>)"
proof -
  show d: "deleteSelectedPoints now (v, sm)
         = (for_each_node (delete_in_node (selectedPoints sm)) v,
            sm\<lparr>undoStack := undoStack sm @ [action], redoStack := [],
               selectedPoints := [], selectionCount := 0\<rparr>)"
    using assms(1) by (simp add: deleteSelectedPoints_applied action_def)
  show u: "undo (deleteSelectedPoints now (v, sm))
         = (for_each_node (\<lambda>nodeName node. undo_in_node action nodeName
                              (delete_in_node (selectedPoints sm) nodeName node)) v,
            sm\<lparr>undoStack := undoStack sm, redoStack := [action],
               selectedPoints := [], selectionCount := 0\<rparr>)"
    unfolding d
    by (subst undo_applied[where us = "undoStack sm" and action = action])
       (simp_all add: action_def for_each_node_twice)
  show "redo (undo (deleteSelectedPoints now (v, sm)))
         = (for_each_node (\<lambda>nodeName node. redo_in_node action nodeName
                              (undo_in_node action nodeName
                                (delete_in_node (selectedPoints sm) nodeName node))) v,
            sm\<lparr>undoStack := undoStack sm @ [action], redoStack := [],
               selectedPoints := [], selectionCount := 0\<rparr>)"
    unfolding u
    by (subst redo_applied[where rs = "[]" and action = action])
       (simp_all add: action_def for_each_node_twice)
qed

lemma div3_offsets [simp]:
  "(idx * 3 + 1) div 3 = (idx::nat)" "(idx * 3 + 2) div 3 = idx"
  "Suc (idx * 3) div 3 = idx" "Suc (Suc (idx * 3)) div 3 = idx"
  by presburger+

lemma sentinel_at_hidden:
  "idx \<in> set S \<Longrightarrow> sentinel_at (foldl hide_point ps S) idx"
  by (simp add: sentinel_at_def nth_foldl_hide)

lemmas edit_eval = run_def example_edit_state_def example_viewer_def example_point_node_def
  new_SelectionManager_def paintSelection_def getLoadedNodes_def paint_point_def point_at_def
  arr_get_def containsPoint_def distanceToSquared_def jsub_def position_offset_def map_get_def
  set_add_def countSelectedPoints_def deleteSelectedPoints_def for_each_node_def delete_in_node_def
  deleted_of_def hide_point_def undo_def undo_in_node_def restorePointColors_def restore_point_def
  set_delete_def redo_def redo_in_node_def Let_def

text \<open>
  C4, as the specification states it: from every state with a non-empty selection, delete
  followed by undo returns every selected point to its position before the deletion. The
  state reached from the example by paint, delete, undo, paint, redo has the point of the
  root selected and already at the sentinel (redo deleted it again while it was still
  selected); delete followed by undo then leaves it at (1, 0, 0), not where it was.
\<close>

theorem delete_undo_counterexample:
  "selectionCount (snd (run [Paint, DeleteSelected 7, Undo, Paint, Redo] example_edit_state)) = 1
   \<and> map (\<lambda>(nodeName, node). (nodeName, position node))
         (potreeNodes (fst (run [Paint, DeleteSelected 7, Undo, Paint, Redo] example_edit_state)))
       = [(''r'', [PosInfinity, PosInfinity, PosInfinity])]
   \<and> map (\<lambda>(nodeName, node). (nodeName, position node))
         (potreeNodes (fst (undo (deleteSelectedPoints 8
            (run [Paint, DeleteSelected 7, Undo, Paint, Redo] example_edit_state)))))
       = [(''r'', [Num 1, Num 0, Num 0])]"
  by (simp add: edit_eval)

text \<open>
  C4, amended. From every state with a non-empty selection, delete followed by undo
  leaves \<^verbatim>\<open>selectionCount\<close> at 0; when every selected point was at its originally
  loaded position and colour (the values stored with its node at load time, so in
  particular it was not already deleted), the position and colour arrays of every node
  are then what they were before the deletion. A redo after that, from every state with a
  non-empty selection, marks exactly the same indices of the same nodes as deleted as the
  deletion did, puts their coordinates back to the sentinel, and leaves the selection
  manager as it was after the deletion.
\<close>

theorem delete_undo_redo:
  assumes "selectionCount sm \<noteq> 0"
  shows "selectionCount (snd (undo (deleteSelectedPoints now (v, sm)))) = 0
         \<and> (selection_at_original (selectedPoints sm) v \<longrightarrow>
              buffers (fst (undo (deleteSelectedPoints now (v, sm)))) = buffers v)
         \<and> deletions (fst (redo (undo (deleteSelectedPoints now (v, sm)))))
             = deletions (fst (deleteSelectedPoints now (v, sm)))
         \<and> snd (redo (undo (deleteSelectedPoints now (v, sm)))) = snd (deleteSelectedPoints now (v, sm))
         \<and> list_all (\<lambda>(nodeName, node).
                list_all (\<lambda>idx. sentinel_at (position node) idx \<and> idx \<in> set (deleted_of node))
                  (indices_of (selectedPoints sm) nodeName))
              (potreeNodes (fst (redo (undo (deleteSelectedPoints now (v, sm))))))"
proof -
  define action where "action = \<lparr>atype = ''delete'', points = selectedPoints sm, timestamp = now\<rparr>"
  define d where "d = deleteSelectedPoints now (v, sm)"
  define u where "u = undo (deleteSelectedPoints now (v, sm))"
  define r where "r = redo (undo (deleteSelectedPoints now (v, sm)))"
  note st = states_after_delete[OF assms, of now v, folded action_def]
  have d: "d = (for_each_node (delete_in_node (selectedPoints sm)) v,
            sm\<lparr>undoStack := undoStack sm @ [action], redoStack := [],
               selectedPoints := [], selectionCount := 0\<rparr>)"
    unfolding d_def by (rule st(1))
  have u: "u = (for_each_node (\<lambda>nodeName node. undo_in_node action nodeName
                              (delete_in_node (selectedPoints sm) nodeName node)) v,
            sm\<lparr>undoStack := undoStack sm, redoStack := [action],
               selectedPoints := [], selectionCount := 0\<rparr>)"
    unfolding u_def by (rule st(2))
  have r: "r = (for_each_node (\<lambda>nodeName node. redo_in_node action nodeName
                              (undo_in_node action nodeName
                                (delete_in_node (selectedPoints sm) nodeName node))) v,
            sm\<lparr>undoStack := undoStack sm @ [action], redoStack := [],
               selectedPoints := [], selectionCount := 0\<rparr>)"
    unfolding r_def by (rule st(3))
  have pa: "points action = selectedPoints sm" by (simp add: action_def)
  have 1: "selectionCount (snd u) = 0"
    unfolding u by simp
  have 2: "buffers (fst u) = buffers v"
    if "selection_at_original (selectedPoints sm) v"
    unfolding u buffers_def fst_conv potreeNodes_for_each_node map_map
    using that
    by (intro map_cong refl)
       (auto simp: selection_at_original_def list_all_iff undo_delete_in_node[OF _ pa])
  have 3: "deletions (fst r) = deletions (fst d)"
    unfolding r d deletions_def fst_conv potreeNodes_for_each_node map_map
    by (intro map_cong refl) (auto simp: redo_undo_delete_in_node[OF pa])
  have 4: "snd r = snd d"
    unfolding r d by simp
  have 5: "list_all (\<lambda>(nodeName, node).
                list_all (\<lambda>idx. sentinel_at (position node) idx \<and> idx \<in> set (deleted_of node))
                  (indices_of (selectedPoints sm) nodeName))
              (potreeNodes (fst r))"
    unfolding r fst_conv potreeNodes_for_each_node
    by (auto simp: list_all_iff redo_undo_delete_in_node[OF pa] delete_in_node_fields
        sentinel_at_hidden)
  show ?thesis using 1 2 3 4 5 unfolding d_def u_def r_def by blast
qed

theorem delete_undo_redo_witness:
  "selectionCount (snd (run [Paint] example_edit_state)) = 1
   \<and> selection_at_original (selectedPoints (snd (run [Paint] example_edit_state)))
         (fst (run [Paint] example_edit_state))
   \<and> buffers (fst (run [Paint] example_edit_state))
       = [(''r'', [Num 1, Num 0, Num 0], [Num 1, Num 0, Num 0])]
   \<and> buffers (fst (undo (deleteSelectedPoints 7 (run [Paint] example_edit_state))))
       = [(''r'', [Num 1, Num 0, Num 0], [Num 1, Num 0, Num 0])]
   \<and> selectionCount (snd (undo (deleteSelectedPoints 7 (run [Paint] example_edit_state)))) = 0
   \<and> deletions (fst (redo (undo (deleteSelectedPoints 7 (run [Paint] example_edit_state)))))
       = [(''r'', [PosInfinity, PosInfinity, PosInfinity], {0})]
   \<and> deletions (fst (deleteSelectedPoints 7 (run [Paint] example_edit_state)))
       = [(''r'', [PosInfinity, PosInfinity, PosInfinity], {0})]"
proof -
  define v where "v = fst (run [Paint] example_edit_state)"
  define sm where "sm = snd (run [Paint] example_edit_state)"
  have p: "run [Paint] example_edit_state = (v, sm)" by (simp add: v_def sm_def)
  have c: "selectionCount sm = 1" unfolding sm_def by (simp add: edit_eval)
  then have n: "selectionCount sm \<noteq> 0" by simp
  have sel: "selectedPoints sm = [(''r'', [0])]" unfolding sm_def by (simp add: edit_eval)
  have nodes: "potreeNodes v = [(''r'', example_point_node)]" unfolding v_def by (simp add: edit_eval)
  have o: "selection_at_original (selectedPoints sm) v"
    unfolding sel by (simp add: selection_at_original_def nodes indices_of_def map_get_def
        point_at_original_def example_point_node_def arr_get_def)
  have b: "buffers v = [(''r'', [Num 1, Num 0, Num 0], [Num 1, Num 0, Num 0])]"
    by (simp add: buffers_def nodes example_point_node_def)
  have d: "deletions (fst (deleteSelectedPoints 7 (v, sm)))
       = [(''r'', [PosInfinity, PosInfinity, PosInfinity], {0})]"
    using n by (simp add: deletions_def deleteSelectedPoints_def for_each_node_def getLoadedNodes_def
        nodes sel delete_in_node_def map_get_def deleted_of_def hide_point_def example_point_node_def
        set_add_def Let_def)
  show ?thesis
    unfolding p using delete_undo_redo[OF n, of 7 v] c o b d by simp
qed

section \<open>Verification: the undo stack\<close>

lemma run_append: "run (xs @ ys) st = run ys (run xs st)"
  by (simp add: run_def)

lemma example_first_delete:
  "run [Paint, DeleteSelected 7] example_edit_state = example_deleted_state []"
  by (simp add: edit_eval example_deleted_state_def example_action_def)

lemma example_cycle:
  "run [Undo, Paint, Redo, DeleteSelected 7] (example_deleted_state us)
   = example_deleted_state (us @ [example_action])"
  by (simp add: edit_eval example_deleted_state_def example_action_def)

lemma example_cycles:
  "run (concat (replicate n [Undo, Paint, Redo, DeleteSelected 7])) (example_deleted_state us)
   = example_deleted_state (us @ replicate n example_action)"
proof (induction n arbitrary: us)
  case 0
  then show ?case by (simp add: run_def)
next
  case (Suc n)
  have "run (concat (replicate (Suc n) [Undo, Paint, Redo, DeleteSelected 7])) (example_deleted_state us)
        = run (concat (replicate n [Undo, Paint, Redo, DeleteSelected 7]))
            (run [Undo, Paint, Redo, DeleteSelected 7] (example_deleted_state us))"
    by (simp only: replicate_Suc concat.simps run_append)
  also have "\<dots> = example_deleted_state ((us @ [example_action]) @ replicate n example_action)"
    by (simp only: example_cycle Suc.IH)
  finally show ?case by (simp add: replicate_append_same)
qed

lemma example_undo_length:
  "length (undoStack (snd (run ([Paint, DeleteSelected 7]
      @ concat (replicate n [Undo, Paint, Redo, DeleteSelected 7])) example_edit_state))) = Suc n"
  by (simp only: run_append example_first_delete example_cycles)
     (simp add: example_deleted_state_def)

text \<open>
  C9, as the specification states it: some fixed capacity bounds the length of the undo
  stack over every sequence of operations. No capacity does. In the example, after the
  one point has been painted and deleted, each round of undo, paint, redo, delete leaves
  one more action on the undo stack: undo restores the point, paint selects it, redo
  deletes it again without clearing the selection, and delete records the selection once
  more.
\<close>

theorem undo_stack_bounded_counterexample:
  "\<not> (\<exists>capacity. \<forall>commands.
         length (undoStack (snd (run commands example_edit_state))) \<le> capacity)"
proof
  assume "\<exists>capacity. \<forall>commands.
         length (undoStack (snd (run commands example_edit_state))) \<le> capacity"
  then obtain capacity where
    "\<forall>commands. length (undoStack (snd (run commands example_edit_state))) \<le> capacity"
    by blast
  then have "length (undoStack (snd (run ([Paint, DeleteSelected 7]
      @ concat (replicate capacity [Undo, Paint, Redo, DeleteSelected 7])) example_edit_state)))
      \<le> capacity"
    by blast
  then have "Suc capacity \<le> capacity"
    by (simp only: example_undo_length)
  then show False by simp
qed

text \<open>
  C9, amended. The undo stack has no capacity. Each applied deletion (one with a
  non-empty selection) pushes one action onto the undo stack and clears the redo stack; a
  deletion without a selection changes nothing; undo and redo move at most one action
  from one stack to the other, so neither changes the number of recorded actions, and
  undo never lengthens the undo stack. For every number there is a sequence of paint,
  delete, undo and redo commands after which the undo stack has that length.
\<close>

theorem undo_stack_grows:
  "(selectionCount (snd st) \<noteq> 0 \<longrightarrow>
      undoStack (snd (deleteSelectedPoints now st))
        = undoStack (snd st) @ [\<lparr>atype = ''delete'', points = selectedPoints (snd st), timestamp = now\<rparr>]
      \<and> redoStack (snd (deleteSelectedPoints now st)) = [])
   \<and> (selectionCount (snd st) = 0 \<longrightarrow> deleteSelectedPoints now st = st)
   \<and> length (undoStack (snd (undo st))) + length (redoStack (snd (undo st)))
       = length (undoStack (snd st)) + length (redoStack (snd st))
   \<and> length (undoStack (snd (undo st))) \<le> length (undoStack (snd st))
   \<and> length (undoStack (snd (redo st))) + length (redoStack (snd (redo st)))
       = length (undoStack (snd st)) + length (redoStack (snd st))
   \<and> (\<exists>commands. length (undoStack (snd (run commands example_edit_state))) = n)"
proof (intro conjI impI)
  assume "selectionCount (snd st) \<noteq> 0"
  then show "undoStack (snd (deleteSelectedPoints now st))
        = undoStack (snd st) @ [\<lparr>atype = ''delete'', points = selectedPoints (snd st), timestamp = now\<rparr>]"
    and "redoStack (snd (deleteSelectedPoints now st)) = []"
    by (simp_all add: deleteSelectedPoints_def Let_def)
next
  assume "selectionCount (snd st) = 0"
  then show "deleteSelectedPoints now st = st"
    by (simp add: deleteSelectedPoints_def Let_def)
next
  show "length (undoStack (snd (undo st))) + length (redoStack (snd (undo st)))
       = length (undoStack (snd st)) + length (redoStack (snd st))"
    by (cases "undoStack (snd st) = []") (simp_all add: undo_def Let_def)
  show "length (undoStack (snd (undo st))) \<le> length (undoStack (snd st))"
    by (simp add: undo_def Let_def)
  show "length (undoStack (snd (redo st))) + length (redoStack (snd (redo st)))
       = length (undoStack (snd st)) + length (redoStack (snd st))"
    by (cases "redoStack (snd st) = []") (simp_all add: redo_def Let_def)
  show "\<exists>commands. length (undoStack (snd (run commands example_edit_state))) = n"
  proof (cases n)
    case 0
    have "length (undoStack (snd (run [] example_edit_state))) = 0"
      by (simp add: run_def example_edit_state_def new_SelectionManager_def)
    then show ?thesis using 0 by blast
  next
    case (Suc m)
    then show ?thesis using example_undo_length[of m] by blast
  qed
qed

theorem undo_stack_grows_witness:
  "selectionCount (snd (run [Paint] example_edit_state)) = 1
   \<and> length (undoStack (snd (deleteSelectedPoints 7 (run [Paint] example_edit_state)))) = 1
   \<and> redoStack (snd (deleteSelectedPoints 7 (run [Paint] example_edit_state))) = []
   \<and> selectionCount (snd example_edit_state) = 0
   \<and> deleteSelectedPoints 7 example_edit_state = example_edit_state"
  using undo_stack_grows[of "run [Paint] example_edit_state" 7 0]
    undo_stack_grows[of example_edit_state 7 0]
  by (simp add: edit_eval)

section \<open>Verification: deleted points\<close>

lemma jmul_self_cases: "jmul a a = NaN \<or> jmul a a = PosInfinity \<or> (\<exists>r. jmul a a = Num r)"
  by (cases a) simp_all

lemma far_or_nan_sum:
  assumes "x = PosInfinity \<or> x = NaN"
  shows "jadd x (jmul a a) = PosInfinity \<or> jadd x (jmul a a) = NaN"
  using assms jmul_self_cases[of a] by auto

lemma sentinel_not_contained:
  assumes "arr_get positions (i * 3) = PosInfinity \<or> arr_get positions (i * 3) = NaN"
  shows "\<not> containsPoint s (point_at positions offset i)"
proof -
  define dx where "dx = jsub (vx (point_at positions offset i)) (Num (vx (center s)))"
  define dy where "dy = jsub (vy (point_at positions offset i)) (Num (vy (center s)))"
  define dz where "dz = jsub (vz (point_at positions offset i)) (Num (vz (center s)))"
  have "dx = PosInfinity \<or> dx = NaN"
    using assms by (auto simp: dx_def point_at_def jsub_def)
  then have x2: "jmul dx dx = PosInfinity \<or> jmul dx dx = NaN"
    by auto
  have xy: "jadd (jmul dx dx) (jmul dy dy) = PosInfinity \<or> jadd (jmul dx dx) (jmul dy dy) = NaN"
    using x2 by (rule far_or_nan_sum)
  have xyz: "jadd (jadd (jmul dx dx) (jmul dy dy)) (jmul dz dz) = PosInfinity
           \<or> jadd (jadd (jmul dx dx) (jmul dy dy)) (jmul dz dz) = NaN"
    using xy by (rule far_or_nan_sum)
  have "distanceToSquared (point_at positions offset i) (center s)
        = jadd (jadd (jmul dx dx) (jmul dy dy)) (jmul dz dz)"
    by (simp add: distanceToSquared_def dx_def dy_def dz_def Let_def)
  then show ?thesis using xyz by (auto simp: containsPoint_def)
qed

lemma sentinel_at_arr_get:
  "sentinel_at positions idx \<Longrightarrow>
   arr_get positions (idx * 3) = PosInfinity \<or> arr_get positions (idx * 3) = NaN"
  by (simp add: sentinel_at_def arr_get_def)

lemma map_get_map_set:
  "map_get (map_set m k v) k' = (if k' = k then Some v else map_get m k')"
  by (induction m) (auto simp: map_get_def)

lemma indices_of_map_set:
  "indices_of (map_set m k s) k' = (if k' = k then s else indices_of m k')"
  by (simp add: indices_of_def map_get_map_set)

lemma paint_point_indices:
  "set (indices_of (fst (paint_point s nodeName positions offset i acc)) k)
   \<subseteq> set (indices_of (fst acc) k)
     \<union> (if k = nodeName \<and> containsPoint s (point_at positions offset i) then {i} else {})"
  by (auto simp: paint_point_def Let_def indices_of_map_set indices_of_def map_get_map_set
      split: option.splits if_splits)

lemma paint_node_indices:
  "set (indices_of (fst (paint_node s nodeName positions offset i acc)) k)
   \<subseteq> set (indices_of (fst acc) k)
     \<union> {j. k = nodeName \<and> containsPoint s (point_at positions offset j)}"
proof (induction s nodeName positions offset i acc rule: paint_node.induct)
  case (1 brushSphere nodeName positions offset i acc)
  show ?case
  proof (cases "real i < real (length positions) / 3")
    case True
    have "set (indices_of (fst (paint_node brushSphere nodeName positions offset (i + 1)
                (paint_point brushSphere nodeName positions offset i acc))) k)
          \<subseteq> set (indices_of (fst (paint_point brushSphere nodeName positions offset i acc)) k)
            \<union> {j. k = nodeName \<and> containsPoint brushSphere (point_at positions offset j)}"
      using "1.IH"[OF True] .
    moreover have "set (indices_of (fst (paint_point brushSphere nodeName positions offset i acc)) k)
          \<subseteq> set (indices_of (fst acc) k)
            \<union> {j. k = nodeName \<and> containsPoint brushSphere (point_at positions offset j)}"
      using paint_point_indices[of brushSphere nodeName positions offset i acc k]
      by (auto split: if_splits)
    ultimately have "set (indices_of (fst (paint_node brushSphere nodeName positions offset (i + 1)
                (paint_point brushSphere nodeName positions offset i acc))) k)
          \<subseteq> set (indices_of (fst acc) k)
            \<union> {j. k = nodeName \<and> containsPoint brushSphere (point_at positions offset j)}"
      by blast
    then show ?thesis
      by (subst paint_node.simps) (simp only: True if_True)
  next
    case False
    then show ?thesis
      by (subst paint_node.simps) (simp only: if_False, blast)
  qed
qed

lemma paint_nodes_indices:
  "set (indices_of (fst (foldl (\<lambda>acc (nodeName, sceneNode).
                                 paint_node s nodeName (position sceneNode) offset 0 acc)
                           acc nodes)) k)
   \<subseteq> set (indices_of (fst acc) k)
     \<union> {j. \<exists>node. (k, node) \<in> set nodes \<and> containsPoint s (point_at (position node) offset j)}"
proof (induction nodes arbitrary: acc)
  case Nil
  then show ?case by simp
next
  case (Cons e nodes)
  obtain nodeName sceneNode where e: "e = (nodeName, sceneNode)" by (cases e)
  define acc1 where "acc1 = paint_node s nodeName (position sceneNode) offset 0 acc"
  have a: "set (indices_of (fst acc1) k)
        \<subseteq> set (indices_of (fst acc) k)
          \<union> {j. k = nodeName \<and> containsPoint s (point_at (position sceneNode) offset j)}"
    unfolding acc1_def by (rule paint_node_indices)
  have b: "set (indices_of (fst (foldl (\<lambda>acc (nodeName, sceneNode).
                                 paint_node s nodeName (position sceneNode) offset 0 acc)
                           acc1 nodes)) k)
        \<subseteq> set (indices_of (fst acc1) k)
          \<union> {j. \<exists>node. (k, node) \<in> set nodes \<and> containsPoint s (point_at (position node) offset j)}"
    by (rule Cons.IH)
  have f: "foldl (\<lambda>acc (nodeName, sceneNode). paint_node s nodeName (position sceneNode) offset 0 acc)
             acc (e # nodes)
         = foldl (\<lambda>acc (nodeName, sceneNode). paint_node s nodeName (position sceneNode) offset 0 acc)
             acc1 nodes"
    by (simp add: e acc1_def)
  show ?case
    unfolding f using a b e by auto
qed

lemma selectedPoints_paintSelection:
  "selectedPoints (paintSelection v sm)
   = fst (foldl (\<lambda>acc (nodeName, sceneNode).
                   paint_node \<lparr>center = brushPosition sm, radius = brushRadius sm\<rparr> nodeName
                     (position sceneNode) (position_offset v) 0 acc)
            (selectedPoints sm, []) (potreeNodes v))"
  by (simp add: paintSelection_def getLoadedNodes_def Let_def)

lemma paintSelection_indices:
  "set (indices_of (selectedPoints (paintSelection v sm)) k)
   \<subseteq> set (indices_of (selectedPoints sm) k)
     \<union> {j. \<exists>node. (k, node) \<in> set (potreeNodes v)
              \<and> containsPoint \<lparr>center = brushPosition sm, radius = brushRadius sm\<rparr>
                   (point_at (position node) (position_offset v) j)}"
  unfolding selectedPoints_paintSelection
  using paint_nodes_indices[of "\<lparr>center = brushPosition sm, radius = brushRadius sm\<rparr>"
      "position_offset v" "(selectedPoints sm, [])" "potreeNodes v" k]
  by simp

lemma paintSelection_skips_deleted:
  assumes "distinct (map fst (potreeNodes v))" "deleted_hidden v"
    and "(nodeName, node) \<in> set (potreeNodes v)" "idx \<in> set (deleted_of node)"
    and "idx \<notin> set (indices_of (selectedPoints sm) nodeName)"
  shows "idx \<notin> set (indices_of (selectedPoints (paintSelection v sm)) nodeName)"
proof
  assume "idx \<in> set (indices_of (selectedPoints (paintSelection v sm)) nodeName)"
  then obtain node' where n': "(nodeName, node') \<in> set (potreeNodes v)"
    and c: "containsPoint \<lparr>center = brushPosition sm, radius = brushRadius sm\<rparr>
              (point_at (position node') (position_offset v) idx)"
    using paintSelection_indices[of v sm nodeName] assms(5) by blast
  have "node' = node"
    using eq_key_imp_eq_value[OF assms(1) n' assms(3)] .
  moreover have "sentinel_at (position node) idx"
    using assms(2,3,4) by (auto simp: deleted_hidden_def list_all_iff)
  ultimately show False
    using c sentinel_not_contained[OF sentinel_at_arr_get] by blast
qed

lemma sentinel_at_hide_keep:
  "sentinel_at positions idx \<Longrightarrow> sentinel_at (foldl hide_point positions S) idx"
  by (simp add: sentinel_at_def nth_foldl_hide)

lemma sentinel_at_restore_other:
  "idx \<notin> set S \<Longrightarrow> sentinel_at positions idx
   \<Longrightarrow> sentinel_at (foldl (restore_point original) positions S) idx"
  by (simp add: sentinel_at_def nth_foldl_restore)

lemma delete_in_node_hidden:
  assumes "list_all (sentinel_at (position node)) (deleted_of node)"
  shows "list_all (sentinel_at (position (delete_in_node selected nodeName node)))
           (deleted_of (delete_in_node selected nodeName node))"
  unfolding list_all_iff
proof
  fix idx assume "idx \<in> set (deleted_of (delete_in_node selected nodeName node))"
  then have "idx \<in> set (deleted_of node) \<or> idx \<in> set (indices_of selected nodeName)"
    by (simp add: delete_in_node_fields)
  then show "sentinel_at (position (delete_in_node selected nodeName node)) idx"
    using assms
    by (auto simp: delete_in_node_fields list_all_iff sentinel_at_hide_keep sentinel_at_hidden)
qed

lemma undo_in_node_hidden:
  assumes "list_all (sentinel_at (position node)) (deleted_of node)"
  shows "list_all (sentinel_at (position (undo_in_node action nodeName node)))
           (deleted_of (undo_in_node action nodeName node))"
  unfolding list_all_iff
proof
  fix idx assume a: "idx \<in> set (deleted_of (undo_in_node action nodeName node))"
  show "sentinel_at (position (undo_in_node action nodeName node)) idx"
  proof (cases "originalPositions node")
    case None
    then show ?thesis
      using a assms by (simp add: undo_in_node_fields undo_in_node_deleted list_all_iff)
  next
    case (Some original)
    then have "idx \<in> set (deleted_of node)" "idx \<notin> set (indices_of (points action) nodeName)"
      using a by (simp_all add: undo_in_node_deleted)
    then show ?thesis
      using assms Some
      by (simp add: undo_in_node_fields list_all_iff sentinel_at_restore_other)
  qed
qed

lemma for_each_node_hidden:
  assumes "deleted_hidden v"
    and "\<And>nodeName node. list_all (sentinel_at (position node)) (deleted_of node)
           \<Longrightarrow> list_all (sentinel_at (position (f nodeName node))) (deleted_of (f nodeName node))"
  shows "deleted_hidden (for_each_node f v)"
  using assms
  by (auto simp: deleted_hidden_def potreeNodes_for_each_node list_all_iff)

lemma deleteSelectedPoints_hidden:
  "deleted_hidden (fst st) \<Longrightarrow> deleted_hidden (fst (deleteSelectedPoints now st))"
  by (auto simp: deleteSelectedPoints_def Let_def intro!: for_each_node_hidden delete_in_node_hidden)

lemma undo_hidden: "deleted_hidden (fst st) \<Longrightarrow> deleted_hidden (fst (undo st))"
  by (auto simp: undo_def Let_def intro!: for_each_node_hidden undo_in_node_hidden)

lemma redo_hidden: "deleted_hidden (fst st) \<Longrightarrow> deleted_hidden (fst (redo st))"
  by (auto simp: redo_def Let_def redo_in_node_eq intro!: for_each_node_hidden delete_in_node_hidden)

lemma keys_for_each_node [simp]:
  "map fst (potreeNodes (for_each_node f v)) = map fst (potreeNodes v)"
  by (simp add: potreeNodes_for_each_node case_prod_unfold comp_def)

text \<open>
  C6. Deletion preserves indices and excludes deleted points from queries. Deleting the
  selected points removes no entry from any position array: the nodes and their names
  stay, every array keeps its length, the entries of each deleted point are overwritten
  by the sentinel \<^verbatim>\<open>Infinity\<close> where they stand, every other entry is what it was, and
  the deleted indices are added to the marks of their node. A point at the sentinel is
  inside no brush sphere, so in the node store (a map, with each name once) in which
  every marked point is at the sentinel, \<^verbatim>\<open>paintSelection\<close>, whatever the brush, never
  adds a marked point to the selection; and delete, undo and redo keep every marked point
  at the sentinel.
\<close>

theorem deletion_keeps_indices:
  assumes "selectionCount sm \<noteq> 0"
  shows "map fst (potreeNodes (fst (deleteSelectedPoints now (v, sm)))) = map fst (potreeNodes v)
     \<and> list_all2 (\<lambda>(nodeName, node) (nodeName1, node1).
            length (position node1) = length (position node)
            \<and> (\<forall>m<length (position node).
                  position node1 ! m
                  = (if m div 3 \<in> set (indices_of (selectedPoints sm) nodeName)
                     then PosInfinity else position node ! m))
            \<and> set (deleted_of node1)
                = set (deleted_of node) \<union> set (indices_of (selectedPoints sm) nodeName))
          (potreeNodes v) (potreeNodes (fst (deleteSelectedPoints now (v, sm))))
     \<and> (distinct (map fst (potreeNodes v)) \<and> deleted_hidden v \<longrightarrow>
          deleted_hidden (fst (deleteSelectedPoints now (v, sm)))
          \<and> (\<forall>sm' nodeName node idx.
                (nodeName, node) \<in> set (potreeNodes (fst (deleteSelectedPoints now (v, sm))))
                \<and> idx \<in> set (deleted_of node)
                \<and> idx \<notin> set (indices_of (selectedPoints sm') nodeName)
                \<longrightarrow> idx \<notin> set (indices_of (selectedPoints
                              (paintSelection (fst (deleteSelectedPoints now (v, sm))) sm')) nodeName)))
     \<and> (deleted_hidden (fst st) \<longrightarrow>
          deleted_hidden (fst (deleteSelectedPoints now st))
          \<and> deleted_hidden (fst (undo st)) \<and> deleted_hidden (fst (redo st)))"
proof -
  define v1 where "v1 = fst (deleteSelectedPoints now (v, sm))"
  have v1: "v1 = for_each_node (delete_in_node (selectedPoints sm)) v"
    unfolding v1_def using assms by (simp add: deleteSelectedPoints_applied)
  have 1: "map fst (potreeNodes v1) = map fst (potreeNodes v)"
    unfolding v1 by simp
  have 2: "list_all2 (\<lambda>(nodeName, node) (nodeName1, node1).
            length (position node1) = length (position node)
            \<and> (\<forall>m<length (position node).
                  position node1 ! m
                  = (if m div 3 \<in> set (indices_of (selectedPoints sm) nodeName)
                     then PosInfinity else position node ! m))
            \<and> set (deleted_of node1)
                = set (deleted_of node) \<union> set (indices_of (selectedPoints sm) nodeName))
          (potreeNodes v) (potreeNodes v1)"
    unfolding v1 potreeNodes_for_each_node
    by (rule list_all2_all_nthI)
       (auto simp: delete_in_node_fields nth_foldl_hide case_prod_unfold)
  have 3: "deleted_hidden v1" if "deleted_hidden v"
    using deleteSelectedPoints_hidden[of "(v, sm)" now] that by (simp add: v1_def)
  have 4: "idx \<notin> set (indices_of (selectedPoints (paintSelection v1 sm')) nodeName)"
    if "distinct (map fst (potreeNodes v))" "deleted_hidden v"
      "(nodeName, node) \<in> set (potreeNodes v1)" "idx \<in> set (deleted_of node)"
      "idx \<notin> set (indices_of (selectedPoints sm') nodeName)"
    for sm' nodeName node idx
  proof (rule paintSelection_skips_deleted)
    show "distinct (map fst (potreeNodes v1))" using that(1) 1 by simp
    show "deleted_hidden v1" using that(2) by (rule 3)
  qed (use that in auto)
  have 5: "deleted_hidden (fst (deleteSelectedPoints now st))
          \<and> deleted_hidden (fst (undo st)) \<and> deleted_hidden (fst (redo st))"
    if "deleted_hidden (fst st)"
    using that deleteSelectedPoints_hidden undo_hidden redo_hidden by blast
  show ?thesis
    using 1 2 3 4 5 unfolding v1_def by blast
qed

theorem deletion_keeps_indices_witness:
  "selectionCount (snd (run [Paint] example_edit_state)) = 1
   \<and> distinct (map fst (potreeNodes (fst (run [Paint] example_edit_state))))
   \<and> deleted_hidden (fst (run [Paint] example_edit_state))
   \<and> map fst (potreeNodes (fst (deleteSelectedPoints 7 (run [Paint] example_edit_state)))) = [''r'']
   \<and> deleted_hidden (fst (deleteSelectedPoints 7 (run [Paint] example_edit_state)))
   \<and> map (\<lambda>(nodeName, node). (nodeName, position node, deleted_of node))
         (potreeNodes (fst (deleteSelectedPoints 7 (run [Paint] example_edit_state))))
       = [(''r'', [PosInfinity, PosInfinity, PosInfinity], [0])]
   \<and> 0 \<notin> set (indices_of (selectedPoints
                  (paintSelection (fst (deleteSelectedPoints 7 (run [Paint] example_edit_state)))
                     (snd (deleteSelectedPoints 7 (run [Paint] example_edit_state))))) ''r'')"
proof -
  define v where "v = fst (run [Paint] example_edit_state)"
  define sm where "sm = snd (run [Paint] example_edit_state)"
  have p: "run [Paint] example_edit_state = (v, sm)" by (simp add: v_def sm_def)
  have c: "selectionCount sm = 1" unfolding sm_def by (simp add: edit_eval)
  then have n: "selectionCount sm \<noteq> 0" by simp
  have nodes: "potreeNodes v = [(''r'', example_point_node)]" unfolding v_def by (simp add: edit_eval)
  have k: "distinct (map fst (potreeNodes v))" by (simp add: nodes)
  have h: "deleted_hidden v"
    by (simp add: deleted_hidden_def nodes deleted_of_def example_point_node_def)
  have e: "map (\<lambda>(nodeName, node). (nodeName, position node, deleted_of node))
         (potreeNodes (fst (deleteSelectedPoints 7 (v, sm))))
       = [(''r'', [PosInfinity, PosInfinity, PosInfinity], [0])]"
    unfolding p[symmetric] by (simp add: edit_eval)
  have s: "selectedPoints (snd (deleteSelectedPoints 7 (v, sm))) = []"
    using n by (simp add: deleteSelectedPoints_def Let_def)
  have m: "(''r'', snd (hd (potreeNodes (fst (deleteSelectedPoints 7 (v, sm))))))
             \<in> set (potreeNodes (fst (deleteSelectedPoints 7 (v, sm))))"
    and d: "0 \<in> set (deleted_of (snd (hd (potreeNodes (fst (deleteSelectedPoints 7 (v, sm)))))))"
    unfolding p[symmetric] by (simp_all add: edit_eval)
  have i: "0 \<notin> set (indices_of (selectedPoints (snd (deleteSelectedPoints 7 (v, sm)))) ''r'')"
    unfolding s by (simp add: indices_of_def map_get_def)
  from deletion_keeps_indices[OF n, of 7 v "(v, sm)"] k h
  have t1: "map fst (potreeNodes (fst (deleteSelectedPoints 7 (v, sm)))) = map fst (potreeNodes v)"
    and t2: "deleted_hidden (fst (deleteSelectedPoints 7 (v, sm)))"
    and t3: "\<forall>sm' nodeName node idx.
                (nodeName, node) \<in> set (potreeNodes (fst (deleteSelectedPoints 7 (v, sm))))
                \<and> idx \<in> set (deleted_of node)
                \<and> idx \<notin> set (indices_of (selectedPoints sm') nodeName)
                \<longrightarrow> idx \<notin> set (indices_of (selectedPoints
                              (paintSelection (fst (deleteSelectedPoints 7 (v, sm))) sm')) nodeName)"
    by blast+
  have t4: "0 \<notin> set (indices_of (selectedPoints
                  (paintSelection (fst (deleteSelectedPoints 7 (v, sm)))
                     (snd (deleteSelectedPoints 7 (v, sm))))) ''r'')"
    using t3 m d i by blast
  show ?thesis
    unfolding p using c k h t1 t2 e t4 by (simp add: nodes)
qed

end
